theory Spec2Isabelle
  imports Main "HOL-Library.AList" "HOL-Library.Multiset" "HOL-Library.Product_Lexorder"
begin

section \<open>JavaScript values used by the scoring module\<close>

text \<open>
  A score field of a game or of a prediction is an optional integer. JavaScript tells a
  property that is missing (\<open>undefined\<close>) from one that holds \<open>null\<close>, and
  \<^verbatim>\<open>calculations.js\<close> tests for each of them separately (\<^verbatim>\<open>!== undefined\<close> when it
  picks a naming convention, \<^verbatim>\<open>=== null\<close> when it decides whether to score), so the
  model keeps the two apart.
\<close>

datatype jsval = Undefined | Null | Num int

text \<open>\<open>ToNumber\<close>: \<open>undefined\<close> becomes NaN (here \<open>None\<close>), \<open>null\<close> becomes 0.\<close>

fun toNumber :: "jsval \<Rightarrow> int option" where
  "toNumber Undefined = None"
| "toNumber Null = Some 0"
| "toNumber (Num n) = Some n"

text \<open>\<^verbatim>\<open>a > b\<close> and \<^verbatim>\<open>a < b\<close>: every comparison with NaN is false.\<close>

definition js_gt :: "jsval \<Rightarrow> jsval \<Rightarrow> bool" where
  "js_gt a b = (case (toNumber a, toNumber b) of (Some x, Some y) \<Rightarrow> x > y | _ \<Rightarrow> False)"

definition js_lt :: "jsval \<Rightarrow> jsval \<Rightarrow> bool" where
  "js_lt a b = (case (toNumber a, toNumber b) of (Some x, Some y) \<Rightarrow> x < y | _ \<Rightarrow> False)"

text \<open>\<^verbatim>\<open>a - b\<close> and \<^verbatim>\<open>Math.abs\<close> on numbers that may be NaN.\<close>

definition js_sub :: "jsval \<Rightarrow> jsval \<Rightarrow> int option" where
  "js_sub a b = (case (toNumber a, toNumber b) of (Some x, Some y) \<Rightarrow> Some (x - y) | _ \<Rightarrow> None)"

definition js_abs :: "int option \<Rightarrow> int option" where
  "js_abs x = map_option abs x"

text \<open>\<^verbatim>\<open>===\<close> on two numbers: NaN is not equal to anything, itself included.\<close>

definition num_strict_eq :: "int option \<Rightarrow> int option \<Rightarrow> bool" where
  "num_strict_eq x y = (case (x, y) of (Some a, Some b) \<Rightarrow> a = b | _ \<Rightarrow> False)"

text \<open>
  A string property is \<open>None\<close> when it is missing or \<open>null\<close>. \<^verbatim>\<open>a || b\<close> yields \<open>b\<close>
  when \<open>a\<close> is falsy: missing, \<open>null\<close> or the empty string.
\<close>

definition truthy :: "string option \<Rightarrow> bool" where
  "truthy a = (case a of None \<Rightarrow> False | Some s \<Rightarrow> s \<noteq> [])"

definition orElse :: "string option \<Rightarrow> string option \<Rightarrow> string option" where
  "orElse a b = (if truthy a then a else b)"

definition orStr :: "string option \<Rightarrow> string \<Rightarrow> string" where
  "orStr a d = (case a of None \<Rightarrow> d | Some s \<Rightarrow> if s \<noteq> [] then s else d)"

text \<open>
  \<^verbatim>\<open>toLowerCase\<close>, on the ASCII letters. The result is only ever compared with
  \<^verbatim>\<open>'finished'\<close>, and no character outside A-Z lower-cases to one of its letters.
\<close>

definition lowerChar :: "char \<Rightarrow> char" where
  "lowerChar c =
    (case map_of (zip ''ABCDEFGHIJKLMNOPQRSTUVWXYZ'' ''abcdefghijklmnopqrstuvwxyz'') c of
       None \<Rightarrow> c
     | Some l \<Rightarrow> l)"

definition toLowerCase :: "string \<Rightarrow> string" where
  "toLowerCase s = map lowerChar s"

section \<open>Data model\<close>

text \<open>
  The fields of a game that \<^verbatim>\<open>calculatePoints\<close> reads, in both naming conventions.
\<close>

record gameFields =
  status :: "string option"
  Status :: "string option"
  homeScore :: jsval
  HomeScore :: jsval
  awayScore :: jsval
  AwayScore :: jsval

record game = gameFields +
  game_id :: string
  fecha :: "string option"
  Fecha :: "string option"

text \<open>
  The timestamp of a prediction: missing or otherwise falsy, a time in whole milliseconds
  (held as a number or as a \<^verbatim>\<open>Date\<close>), or a value that gives an invalid \<^verbatim>\<open>Date\<close>, which
  is what \<^verbatim>\<open>normalizePrediction\<close> makes of a missing timestamp (\<^verbatim>\<open>new Date(undefined)\<close>).
\<close>

datatype jstime = NoTimestamp | Millis int | InvalidDate

record prediction =
  userId :: "string option"
  gameId :: string
  predictedHomeScore :: jsval
  predictedAwayScore :: jsval
  playerName :: "string option"
  timestamp :: jstime

record PlayerStats =
  totalPoints :: int
  fechasWonCount :: int
  perfectScoresCount :: int
  gamesParticipated :: int

datatype outcome = HW | AW | D

section \<open>calculatePoints\<close>

definition outcomeOf :: "jsval \<Rightarrow> jsval \<Rightarrow> outcome" where
  "outcomeOf h a = (if js_gt h a then HW else (if js_lt h a then AW else D))"

definition gameStatusOf :: "'a gameFields_scheme \<Rightarrow> string" where
  "gameStatusOf game = toLowerCase (orStr (orElse (status game) (Status game)) [])"

definition homeScoreOf :: "'a gameFields_scheme \<Rightarrow> jsval" where
  "homeScoreOf game = (if homeScore game \<noteq> Undefined then homeScore game else HomeScore game)"

definition awayScoreOf :: "'a gameFields_scheme \<Rightarrow> jsval" where
  "awayScoreOf game = (if awayScore game \<noteq> Undefined then awayScore game else AwayScore game)"

text \<open>The result \<open>None\<close> is the \<open>null\<close> that the source returns for a game it cannot score.\<close>

definition calculatePoints :: "'b prediction_scheme \<Rightarrow> 'a gameFields_scheme \<Rightarrow> int option" where
  "calculatePoints prediction game =
    (let gameStatus = gameStatusOf game;
         homeScore = homeScoreOf game;
         awayScore = awayScoreOf game
     in if gameStatus \<noteq> ''finished'' \<or> homeScore = Null \<or> awayScore = Null then None
        else
          let predictedHome = predictedHomeScore prediction;
              predictedAway = predictedAwayScore prediction;
              actualHome = homeScore;
              actualAway = awayScore
          in if predictedHome = Null \<or> predictedAway = Null then Some 0
             else
               let predictedOutcome = outcomeOf predictedHome predictedAway;
                   actualOutcome = outcomeOf actualHome actualAway;
                   predictedGoalDifference = js_sub predictedHome predictedAway;
                   actualGoalDifference = js_sub actualHome actualAway
               in Some ((if predictedOutcome = actualOutcome then 5 else 0)
                      + (if predictedHome = actualHome then 2 else 0)
                      + (if predictedAway = actualAway then 2 else 0)
                      + (if num_strict_eq (js_abs predictedGoalDifference) (js_abs actualGoalDifference)
                         then 1 else 0)))"

section \<open>calculatePlayerStats\<close>

text \<open>
  The three dictionaries of the source are objects created by \<^verbatim>\<open>{}\<close>, with string keys.
  Each is modelled by the association list of its own properties, in insertion order.
  \<open>AList.update\<close> overwrites a key in place or appends a new one; \<open>AList.map_entry\<close>
  changes the value stored under a key and does nothing when the key is not there.

  An object created by \<^verbatim>\<open>{}\<close> also inherits the properties of \<^verbatim>\<open>Object.prototype\<close>. Reading
  one of these names where the object has no own property of that name yields a built-in
  function (for \<^verbatim>\<open>__proto__\<close>, the prototype object itself), which is truthy.
\<close>

definition objectPrototypeNames :: "string list" where
  "objectPrototypeNames =
    [''constructor'', ''__proto__'', ''hasOwnProperty'', ''isPrototypeOf'',
     ''propertyIsEnumerable'', ''toLocaleString'', ''toString'', ''valueOf'',
     ''__defineGetter__'', ''__defineSetter__'', ''__lookupGetter__'', ''__lookupSetter__'']"

definition inherited :: "string \<Rightarrow> bool" where
  "inherited k = (k \<in> set objectPrototypeNames)"

text \<open>
  What a week object stores for a user: a number, or a string that is not a number. The
  string arises when \<^verbatim>\<open>+=\<close> adds the points to an inherited function, which concatenates
  the function's source text with the points; \<^verbatim>\<open>Math.max\<close> reads such a string as NaN.
\<close>

datatype weekValue = Number int | Text

type_synonym statsDict = "(string \<times> PlayerStats) list"

type_synonym fechaDict = "(string \<times> (string \<times> weekValue) list) list"

text \<open>
  \<^verbatim>\<open>gameMap[game.id] = game\<close>: a later game replaces an earlier one with the same id. A
  lookup \<^verbatim>\<open>gameMap[pred.gameId]\<close> that finds no own property either is falsy or yields an
  inherited value, which has no status and so is never scored; both are \<open>None\<close> here.
  (A game with the id \<^verbatim>\<open>__proto__\<close> becomes the prototype of \<^verbatim>\<open>gameMap\<close> and is found
  again under that id, as in the map.)
\<close>

definition buildGameMap :: "game list \<Rightarrow> (string \<rightharpoonup> game)" where
  "buildGameMap games = foldl (\<lambda>gameMap game. gameMap(game_id game \<mapsto> game)) Map.empty games"

text \<open>\<^verbatim>\<open>pred.userId || 'unknown'\<close>\<close>

definition userIdOf :: "'a prediction_scheme \<Rightarrow> string" where
  "userIdOf pred = orStr (userId pred) ''unknown''"

definition zeroStats :: PlayerStats where
  "zeroStats = \<lparr>totalPoints = 0, fechasWonCount = 0, perfectScoresCount = 0, gamesParticipated = 0\<rparr>"

text \<open>
  \<^verbatim>\<open>if (!playerStats[userId])\<close>: the entry is created only when the name is neither an own
  property nor an inherited one.
\<close>

definition initPlayer :: "statsDict \<Rightarrow> 'a prediction_scheme \<Rightarrow> statsDict" where
  "initPlayer playerStats pred =
    (let userId = userIdOf pred
     in if map_of playerStats userId = None \<and> \<not> inherited userId
        then AList.update userId zeroStats playerStats
        else playerStats)"

definition normalizedGame :: "game \<Rightarrow> gameFields" where
  "normalizedGame game =
    \<lparr>status = Some (toLowerCase (orStr (orElse (Status game) (status game)) [])),
     Status = None,
     homeScore = (if HomeScore game \<noteq> Undefined then HomeScore game else homeScore game),
     HomeScore = Undefined,
     awayScore = (if AwayScore game \<noteq> Undefined then AwayScore game else awayScore game),
     AwayScore = Undefined\<rparr>"

text \<open>\<^verbatim>\<open>game.Fecha || game.fecha\<close>, and \<open>None\<close> when the result is falsy.\<close>

definition fechaOfGame :: "game \<Rightarrow> string option" where
  "fechaOfGame game = (let fecha = orElse (Fecha game) (fecha game) in if truthy fecha then fecha else None)"

definition addPoints :: "int \<Rightarrow> PlayerStats \<Rightarrow> PlayerStats" where
  "addPoints points s =
    (let s1 = s\<lparr>totalPoints := totalPoints s + points\<rparr>;
         s2 = s1\<lparr>gamesParticipated := gamesParticipated s1 + 1\<rparr>
     in if points = 10 then s2\<lparr>perfectScoresCount := perfectScoresCount s2 + 1\<rparr> else s2)"

text \<open>
  \<^verbatim>\<open>!players[uid]\<close> on a week object: an own 0 is falsy, an own non-zero number, an own
  string and an inherited function are truthy, a name found nowhere is falsy.
\<close>

definition falsyEntry :: "(string \<times> weekValue) list \<Rightarrow> string \<Rightarrow> bool" where
  "falsyEntry players uid =
    (case map_of players uid of
       Some (Number n) \<Rightarrow> n = 0
     | Some Text \<Rightarrow> False
     | None \<Rightarrow> \<not> inherited uid)"

text \<open>
  \<^verbatim>\<open>players[uid] += points\<close> on a week object. A number is added to; a string stays a
  string. Where the object has no own property, the value read is inherited (the statement
  before has created every other entry) and the sum is a string, which is stored as an own
  property, except under \<^verbatim>\<open>__proto__\<close>, whose setter ignores a string.
\<close>

definition addToEntry :: "string \<Rightarrow> int \<Rightarrow> (string \<times> weekValue) list \<Rightarrow> (string \<times> weekValue) list" where
  "addToEntry uid points players =
    (case map_of players uid of
       Some (Number n) \<Rightarrow> AList.update uid (Number (n + points)) players
     | Some Text \<Rightarrow> AList.update uid Text players
     | None \<Rightarrow> if uid = ''__proto__'' then players else AList.update uid Text players)"

text \<open>
  The three statements that track a week: create the week's object when
  \<^verbatim>\<open>!fechaScores[fecha]\<close>, create the user's entry when \<^verbatim>\<open>!fechaScores[fecha][userId]\<close>, add
  the points. When the week label is an inherited name, no week object is created and the
  two stores go to the built-in object that the name denotes: the dictionary is unchanged.
  The model does not follow such a store into the built-in object; the theorems that
  depend on what it does there exclude these labels (\<open>plainKeys\<close>).
\<close>

definition addFechaScore :: "string \<Rightarrow> string \<Rightarrow> int \<Rightarrow> fechaDict \<Rightarrow> fechaDict" where
  "addFechaScore week uid points fechaScores =
    (let fs1 = (if map_of fechaScores week = None \<and> \<not> inherited week
                then AList.update week [] fechaScores
                else fechaScores)
     in AList.map_entry week
          (\<lambda>players.
             let players1 = (if falsyEntry players uid then AList.update uid (Number 0) players
                             else players)
             in addToEntry uid points players1)
          fs1)"

text \<open>
  One round of the second loop. When \<open>userId\<close> has no own entry in \<open>playerStats\<close> (it is an
  inherited name), the three counters are stored in the built-in object and \<open>playerStats\<close>
  is unchanged, which is what \<open>AList.map_entry\<close> does.
\<close>

definition processPrediction ::
  "(string \<rightharpoonup> game) \<Rightarrow> statsDict \<times> fechaDict \<Rightarrow> 'a prediction_scheme \<Rightarrow> statsDict \<times> fechaDict" where
  "processPrediction gameMap st pred =
    (let userId = userIdOf pred
     in case gameMap (gameId pred) of
          None \<Rightarrow> st
        | Some game \<Rightarrow>
            (case calculatePoints pred (normalizedGame game) of
               None \<Rightarrow> st
             | Some points \<Rightarrow>
                 (AList.map_entry userId (addPoints points) (fst st),
                  (case fechaOfGame game of
                     None \<Rightarrow> snd st
                   | Some week \<Rightarrow> addFechaScore week userId points (snd st)))))"

text \<open>\<^verbatim>\<open>Math.max(...scores)\<close>; \<open>None\<close> is NaN, the result when a score is not a number.\<close>

definition numberOf :: "weekValue \<Rightarrow> int option" where
  "numberOf v = (case v of Number n \<Rightarrow> Some n | Text \<Rightarrow> None)"

definition mathMax :: "weekValue list \<Rightarrow> int option" where
  "mathMax scores =
    (if Text \<in> set scores then None else Some (Max (set (List.map_filter numberOf scores))))"

text \<open>\<^verbatim>\<open>playersInFecha[userId] === maxScore\<close>: false for a string and for NaN.\<close>

definition isMaxScore :: "weekValue option \<Rightarrow> int option \<Rightarrow> bool" where
  "isMaxScore v maxScore =
    (case (v, maxScore) of (Some (Number n), Some m) \<Rightarrow> n = m | _ \<Rightarrow> False)"

definition creditFecha :: "statsDict \<Rightarrow> string \<times> (string \<times> weekValue) list \<Rightarrow> statsDict" where
  "creditFecha playerStats entry =
    (let playersInFecha = snd entry;
         scores = map snd playersInFecha
     in if length scores > 0
        then let maxScore = mathMax scores
             in foldl (\<lambda>st userId.
                         if isMaxScore (map_of playersInFecha userId) maxScore
                         then AList.map_entry userId
                                (\<lambda>s. s\<lparr>fechasWonCount := fechasWonCount s + 1\<rparr>) st
                         else st)
                  playerStats (map fst playersInFecha)
        else playerStats)"

text \<open>
  The result is the list of the own properties of \<open>playerStats\<close>. Its order is the order of
  insertion, which is the order of \<^verbatim>\<open>Object.entries\<close> except for keys that are array indices;
  no theorem below depends on the order.
\<close>

definition calculatePlayerStats :: "game list \<Rightarrow> 'a prediction_scheme list \<Rightarrow> statsDict" where
  "calculatePlayerStats games predictions =
    (let gameMap = buildGameMap games;
         playerStats0 = foldl initPlayer [] predictions;
         st = foldl (processPrediction gameMap) (playerStats0, []) predictions
     in foldl creditFecha (fst st) (snd st))"

text \<open>
  The inputs on which no dictionary is read or written under an inherited name: no
  prediction's userId (\<open>plainUsers\<close>) and no game's week label (\<open>plainWeeks\<close>) is the name
  of a property of \<^verbatim>\<open>Object.prototype\<close>.
\<close>

definition plainUsers :: "'a prediction_scheme list \<Rightarrow> bool" where
  "plainUsers preds = (\<forall>p \<in> set preds. \<not> inherited (userIdOf p))"

definition plainWeeks :: "game list \<Rightarrow> bool" where
  "plainWeeks games =
    (\<forall>g \<in> set games. case fechaOfGame g of None \<Rightarrow> True | Some week \<Rightarrow> \<not> inherited week)"

definition plainKeys :: "game list \<Rightarrow> 'a prediction_scheme list \<Rightarrow> bool" where
  "plainKeys games preds = (plainUsers preds \<and> plainWeeks games)"

section \<open>getLatestPlayerName and sortPlayersByStats\<close>

text \<open>
  \<^verbatim>\<open>pred.timestamp ? new Date(pred.timestamp).getTime() : 0\<close>. A missing timestamp and
  the number 0 give 0. \<^verbatim>\<open>getTime\<close> is NaN (here \<open>None\<close>) for an invalid date and for a
  number beyond the range of \<^verbatim>\<open>Date\<close>, 8.64e15 milliseconds either side of the epoch.
\<close>

definition predTime :: "'a prediction_scheme \<Rightarrow> int option" where
  "predTime pred =
    (case timestamp pred of
       NoTimestamp \<Rightarrow> Some 0
     | Millis t \<Rightarrow> if \<bar>t\<bar> \<le> 8640000000000000 then Some t else None
     | InvalidDate \<Rightarrow> None)"

text \<open>\<^verbatim>\<open>predTime > latestTime\<close>: false when either side is NaN.\<close>

definition timeGt :: "int option \<Rightarrow> int option \<Rightarrow> bool" where
  "timeGt a b = (case (a, b) of (Some x, Some y) \<Rightarrow> x > y | _ \<Rightarrow> False)"

definition getLatestPlayerName :: "'a prediction_scheme list \<Rightarrow> string \<Rightarrow> string" where
  "getLatestPlayerName predictions uid =
    (let userPredictions = filter (\<lambda>p. userId p = Some uid) predictions
     in if length userPredictions > 0
        then let latest = foldl (\<lambda>latest pred.
                                   if timeGt (predTime pred) (predTime latest) then pred else latest)
                            (hd userPredictions) userPredictions
             in orStr (playerName latest) uid
        else uid)"

text \<open>
  The comparator handed to \<^verbatim>\<open>sort\<close>. \<^verbatim>\<open>String.prototype.localeCompare\<close> belongs to the host
  and depends on its locale, so it is a parameter.
\<close>

definition compareStats ::
  "(string \<Rightarrow> string \<Rightarrow> int) \<Rightarrow> 'a prediction_scheme list \<Rightarrow> string \<times> PlayerStats \<Rightarrow> string \<times> PlayerStats \<Rightarrow> int" where
  "compareStats localeCompare predictions a b =
    (let idA = fst a; statsA = snd a; idB = fst b; statsB = snd b
     in if totalPoints statsB \<noteq> totalPoints statsA then totalPoints statsB - totalPoints statsA
        else if fechasWonCount statsB \<noteq> fechasWonCount statsA
        then fechasWonCount statsB - fechasWonCount statsA
        else if perfectScoresCount statsB \<noteq> perfectScoresCount statsA
        then perfectScoresCount statsB - perfectScoresCount statsA
        else let nameA = getLatestPlayerName predictions idA;
                 nameB = getLatestPlayerName predictions idB
             in localeCompare nameA nameB)"

text \<open>
  \<^verbatim>\<open>Array.prototype.sort\<close> is stable: elements that compare equal keep their order. For
  a consistent comparator (one that is a total preorder, as \<open>compareStats\<close> is when
  \<^verbatim>\<open>localeCompare\<close> is) the sorted arrangement is unique, and stable insertion sort
  computes it.
\<close>

fun insertBy :: "('a \<Rightarrow> 'a \<Rightarrow> int) \<Rightarrow> 'a \<Rightarrow> 'a list \<Rightarrow> 'a list" where
  "insertBy cmp x [] = [x]"
| "insertBy cmp x (y # ys) = (if cmp x y \<le> 0 then x # y # ys else y # insertBy cmp x ys)"

definition sortBy :: "('a \<Rightarrow> 'a \<Rightarrow> int) \<Rightarrow> 'a list \<Rightarrow> 'a list" where
  "sortBy cmp xs = foldr (insertBy cmp) xs []"

definition sortPlayersByStats ::
  "(string \<Rightarrow> string \<Rightarrow> int) \<Rightarrow> statsDict \<Rightarrow> 'a prediction_scheme list \<Rightarrow> statsDict" where
  "sortPlayersByStats localeCompare playerStats predictions =
    sortBy (compareStats localeCompare predictions) playerStats"

text \<open>
  A comparator to run the ranking on: code-unit order, with which \<^verbatim>\<open>localeCompare\<close> agrees
  on strings of lower-case ASCII letters.
\<close>

fun lexCompare :: "nat list \<Rightarrow> nat list \<Rightarrow> int" where
  "lexCompare [] [] = 0"
| "lexCompare [] (y # ys) = - 1"
| "lexCompare (x # xs) [] = 1"
| "lexCompare (x # xs) (y # ys) =
    (if x < y then - 1 else if y < x then 1 else lexCompare xs ys)"

definition codeUnitCompare :: "string \<Rightarrow> string \<Rightarrow> int" where
  "codeUnitCompare a b = lexCompare (map of_char a) (map of_char b)"

section \<open>What the aggregation computes, in closed form\<close>

text \<open>
  The quantities the statistics are specified by: the points of one prediction against the
  game map, the week it counts for, the scored points of one user, and the same per week.
\<close>

definition pointsOf :: "(string \<rightharpoonup> game) \<Rightarrow> 'a prediction_scheme \<Rightarrow> int option" where
  "pointsOf gameMap pred =
    (case gameMap (gameId pred) of
       None \<Rightarrow> None
     | Some game \<Rightarrow> calculatePoints pred (normalizedGame game))"

definition weekOf :: "(string \<rightharpoonup> game) \<Rightarrow> 'a prediction_scheme \<Rightarrow> string option" where
  "weekOf gameMap pred =
    (case gameMap (gameId pred) of
       None \<Rightarrow> None
     | Some game \<Rightarrow> fechaOfGame game)"

definition userPoints :: "(string \<rightharpoonup> game) \<Rightarrow> 'a prediction_scheme list \<Rightarrow> string \<Rightarrow> int list" where
  "userPoints gameMap preds uid =
    List.map_filter (pointsOf gameMap) (filter (\<lambda>p. userIdOf p = uid) preds)"

definition weekPoints ::
  "(string \<rightharpoonup> game) \<Rightarrow> 'a prediction_scheme list \<Rightarrow> string \<Rightarrow> string \<Rightarrow> int list" where
  "weekPoints gameMap preds week uid =
    List.map_filter (pointsOf gameMap)
      (filter (\<lambda>p. userIdOf p = uid \<and> weekOf gameMap p = Some week) preds)"

definition scoredInWeek ::
  "(string \<rightharpoonup> game) \<Rightarrow> 'a prediction_scheme list \<Rightarrow> string \<Rightarrow> string \<Rightarrow> bool" where
  "scoredInWeek gameMap preds week uid = (weekPoints gameMap preds week uid \<noteq> [])"

definition weekTotal ::
  "(string \<rightharpoonup> game) \<Rightarrow> 'a prediction_scheme list \<Rightarrow> string \<Rightarrow> string \<Rightarrow> int" where
  "weekTotal gameMap preds week uid = sum_list (weekPoints gameMap preds week uid)"

definition users :: "'a prediction_scheme list \<Rightarrow> string list" where
  "users preds = remdups (map userIdOf preds)"

text \<open>The week labels that received at least one scored prediction.\<close>

definition weekLabels :: "(string \<rightharpoonup> game) \<Rightarrow> 'a prediction_scheme list \<Rightarrow> string list" where
  "weekLabels gameMap preds =
    remdups (List.map_filter (weekOf gameMap) (filter (\<lambda>p. pointsOf gameMap p \<noteq> None) preds))"

text \<open>The maximum accumulated total among the users who scored in a week.\<close>

definition weekMax :: "(string \<rightharpoonup> game) \<Rightarrow> 'a prediction_scheme list \<Rightarrow> string \<Rightarrow> int" where
  "weekMax gameMap preds week =
    Max (set (map (weekTotal gameMap preds week)
                (filter (scoredInWeek gameMap preds week) (users preds))))"

definition wonWeek ::
  "(string \<rightharpoonup> game) \<Rightarrow> 'a prediction_scheme list \<Rightarrow> string \<Rightarrow> string \<Rightarrow> bool" where
  "wonWeek gameMap preds week uid =
    (scoredInWeek gameMap preds week uid \<and>
     weekTotal gameMap preds week uid = weekMax gameMap preds week)"

definition statsOf :: "(string \<rightharpoonup> game) \<Rightarrow> 'a prediction_scheme list \<Rightarrow> string \<Rightarrow> PlayerStats" where
  "statsOf gameMap preds uid =
    \<lparr>totalPoints = sum_list (userPoints gameMap preds uid),
     fechasWonCount = int (length (filter (\<lambda>week. wonWeek gameMap preds week uid)
                                     (weekLabels gameMap preds))),
     perfectScoresCount = int (length (filter (\<lambda>x. x = 10) (userPoints gameMap preds uid))),
     gamesParticipated = int (length (userPoints gameMap preds uid))\<rparr>"


section \<open>The ranking order\<close>

text \<open>
  \<open>ranksBefore\<close> is the tie-break chain: higher totalPoints first, then higher
  fechasWonCount, then higher perfectScoresCount, then the display names in ascending order.
\<close>

definition ranksBefore ::
  "(string \<Rightarrow> string \<Rightarrow> int) \<Rightarrow> 'a prediction_scheme list \<Rightarrow> string \<times> PlayerStats \<Rightarrow> string \<times> PlayerStats \<Rightarrow> bool" where
  "ranksBefore localeCompare predictions a b =
    (totalPoints (snd a) > totalPoints (snd b)
     \<or> (totalPoints (snd a) = totalPoints (snd b)
        \<and> (fechasWonCount (snd a) > fechasWonCount (snd b)
           \<or> (fechasWonCount (snd a) = fechasWonCount (snd b)
              \<and> (perfectScoresCount (snd a) > perfectScoresCount (snd b)
                 \<or> (perfectScoresCount (snd a) = perfectScoresCount (snd b)
                    \<and> localeCompare (getLatestPlayerName predictions (fst a))
                                      (getLatestPlayerName predictions (fst b)) \<le> 0))))))"

text \<open>What is assumed of \<^verbatim>\<open>localeCompare\<close>: it compares any two strings, transitively.\<close>

definition totalPreorder :: "(string \<Rightarrow> string \<Rightarrow> int) \<Rightarrow> bool" where
  "totalPreorder localeCompare =
    ((\<forall>a b. localeCompare a b \<le> 0 \<or> localeCompare b a \<le> 0)
     \<and> (\<forall>a b c. localeCompare a b \<le> 0 \<longrightarrow> localeCompare b c \<le> 0 \<longrightarrow> localeCompare a c \<le> 0))"

text \<open>The three numeric keys of an entry, and their negation (used to sort ascending).\<close>

definition statTriple :: "string \<times> PlayerStats \<Rightarrow> int \<times> int \<times> int" where
  "statTriple entry = (totalPoints (snd entry), fechasWonCount (snd entry), perfectScoresCount (snd entry))"

definition negTriple :: "int \<times> int \<times> int \<Rightarrow> int \<times> int \<times> int" where
  "negTriple t = (- fst t, - fst (snd t), - snd (snd t))"


section \<open>Notions used in the proofs\<close>

text \<open>The effect of a list of scored points on one user's statistics.\<close>

definition addAll :: "int list \<Rightarrow> PlayerStats \<Rightarrow> PlayerStats" where
  "addAll pts s =
    s\<lparr>totalPoints := totalPoints s + sum_list pts,
      perfectScoresCount := perfectScoresCount s + int (length (filter (\<lambda>x. x = 10) pts)),
      gamesParticipated := gamesParticipated s + int (length pts)\<rparr>"

text \<open>The week dictionary read as a function of week and user, and its invariants.\<close>

definition fview :: "fechaDict \<Rightarrow> string \<Rightarrow> string \<Rightarrow> weekValue option" where
  "fview F w u = (case map_of F w of None \<Rightarrow> None | Some players \<Rightarrow> map_of players u)"

definition fechaDistinct :: "fechaDict \<Rightarrow> bool" where
  "fechaDistinct F =
    (distinct (map fst F) \<and>
     (\<forall>w players. map_of F w = Some players \<longrightarrow> distinct (map fst players)))"

definition fechaInv :: "fechaDict \<Rightarrow> bool" where
  "fechaInv F =
    (distinct (map fst F) \<and>
     (\<forall>w players. map_of F w = Some players \<longrightarrow> players \<noteq> [] \<and> distinct (map fst players)))"

text \<open>The value of an entry after a list of points has been added to it.\<close>

definition bump :: "int \<Rightarrow> weekValue option \<Rightarrow> weekValue" where
  "bump x v = (case v of None \<Rightarrow> Number x | Some (Number y) \<Rightarrow> Number (y + x) | Some Text \<Rightarrow> Text)"

fun accum :: "weekValue option \<Rightarrow> int list \<Rightarrow> weekValue option" where
  "accum v [] = v"
| "accum v (x # xs) = accum (Some (bump x v)) xs"

definition creditWin :: "PlayerStats \<Rightarrow> PlayerStats" where
  "creditWin s = s\<lparr>fechasWonCount := fechasWonCount s + 1\<rparr>"

definition addWins :: "nat \<Rightarrow> PlayerStats \<Rightarrow> PlayerStats" where
  "addWins n s = s\<lparr>fechasWonCount := fechasWonCount s + int n\<rparr>"

definition winsEntry :: "string \<Rightarrow> string \<times> (string \<times> weekValue) list \<Rightarrow> bool" where
  "winsEntry u entry = isMaxScore (map_of (snd entry) u) (mathMax (map snd (snd entry)))"

text \<open>What \<open>addFechaScore\<close> does to the week's object.\<close>

definition weekStep :: "string \<Rightarrow> int \<Rightarrow> (string \<times> weekValue) list \<Rightarrow> (string \<times> weekValue) list" where
  "weekStep u x players =
    addToEntry u x (if falsyEntry players u then AList.update u (Number 0) players else players)"

text \<open>
  What a week object holds for user \<open>u\<close> after points have been added, for any user: an
  inherited name other than \<^verbatim>\<open>__proto__\<close> gets a string, \<^verbatim>\<open>__proto__\<close> gets nothing.
\<close>

definition bumpFor :: "string \<Rightarrow> int \<Rightarrow> weekValue option \<Rightarrow> weekValue option" where
  "bumpFor u x v =
    (case v of
       None \<Rightarrow> if inherited u then (if u = ''__proto__'' then None else Some Text)
               else Some (Number x)
     | Some (Number y) \<Rightarrow> Some (Number (y + x))
     | Some Text \<Rightarrow> Some Text)"

fun accumFor :: "string \<Rightarrow> weekValue option \<Rightarrow> int list \<Rightarrow> weekValue option" where
  "accumFor u v [] = v"
| "accumFor u v (x # xs) = accumFor u (bumpFor u x v) xs"

text \<open>A prediction that touches no inherited name.\<close>

definition plainPred :: "(string \<rightharpoonup> game) \<Rightarrow> 'a prediction_scheme \<Rightarrow> bool" where
  "plainPred gm p =
    (\<not> inherited (userIdOf p)
     \<and> (case weekOf gm p of None \<Rightarrow> True | Some week \<Rightarrow> \<not> inherited week))"

text \<open>The week dictionary that calculatePlayerStats has built when its second loop ends.\<close>

definition fechaScoresOf :: "(string \<rightharpoonup> game) \<Rightarrow> 'a prediction_scheme list \<Rightarrow> fechaDict" where
  "fechaScoresOf gm ps = snd (foldl (processPrediction gm) (foldl initPlayer [] ps, []) ps)"

section \<open>Inputs used to run the definitions\<close>

definition lowerGame :: "string \<Rightarrow> string \<Rightarrow> jsval \<Rightarrow> jsval \<Rightarrow> string option \<Rightarrow> game" where
  "lowerGame i s h a w =
    \<lparr>status = Some s, Status = None, homeScore = h, HomeScore = Undefined,
     awayScore = a, AwayScore = Undefined, game_id = i, fecha = w, Fecha = None\<rparr>"

definition upperGame :: "string \<Rightarrow> string \<Rightarrow> jsval \<Rightarrow> jsval \<Rightarrow> string option \<Rightarrow> game" where
  "upperGame i s h a w =
    \<lparr>status = None, Status = Some s, homeScore = Undefined, HomeScore = h,
     awayScore = Undefined, AwayScore = a, game_id = i, fecha = None, Fecha = w\<rparr>"

definition mkPrediction :: "string \<Rightarrow> string \<Rightarrow> jsval \<Rightarrow> jsval \<Rightarrow> prediction" where
  "mkPrediction u g h a =
    \<lparr>userId = Some u, gameId = g, predictedHomeScore = h, predictedAwayScore = a,
     playerName = None, timestamp = NoTimestamp\<rparr>"

definition namedPrediction :: "string \<Rightarrow> string \<Rightarrow> prediction" where
  "namedPrediction u n =
    \<lparr>userId = Some u, gameId = ''none'', predictedHomeScore = Null, predictedAwayScore = Null,
     playerName = Some n, timestamp = NoTimestamp\<rparr>"

definition timedPrediction :: "string \<Rightarrow> string \<Rightarrow> jstime \<Rightarrow> prediction" where
  "timedPrediction u n t =
    \<lparr>userId = Some u, gameId = ''none'', predictedHomeScore = Null, predictedAwayScore = Null,
     playerName = Some n, timestamp = t\<rparr>"

text \<open>
  Two finished games in two weeks; \<open>A\<close> and \<open>B\<close> both predict the first one exactly, \<open>C\<close>
  predicts both games.
\<close>

definition tieGames :: "game list" where
  "tieGames = [lowerGame ''G1'' ''finished'' (Num 2) (Num 1) (Some ''W1''),
               upperGame ''G2'' ''Finished'' (Num 0) (Num 0) (Some ''W2'')]"

definition tiePreds :: "prediction list" where
  "tiePreds = [mkPrediction ''A'' ''G1'' (Num 2) (Num 1),
               mkPrediction ''B'' ''G1'' (Num 2) (Num 1),
               mkPrediction ''C'' ''G1'' (Num 3) (Num 1),
               mkPrediction ''C'' ''G2'' (Num 0) (Num 0)]"

text \<open>A prediction for a game that does not exist, and one without a userId.\<close>

definition danglingPred :: prediction where
  "danglingPred = mkPrediction ''D'' ''G9'' (Num 1) (Num 0)"

definition anonymousPred :: prediction where
  "anonymousPred =
    \<lparr>userId = None, gameId = ''G1'', predictedHomeScore = Num 2, predictedAwayScore = Num 1,
     playerName = None, timestamp = NoTimestamp\<rparr>"

text \<open>Entries to rank, predictions that differ in order only, and two games with one id.\<close>

definition rankedEntries :: statsDict where
  "rankedEntries =
    [(''m'', \<lparr>totalPoints = 20, fechasWonCount = 2, perfectScoresCount = 1, gamesParticipated = 3\<rparr>),
     (''zed'', \<lparr>totalPoints = 20, fechasWonCount = 3, perfectScoresCount = 0, gamesParticipated = 3\<rparr>),
     (''abe'', \<lparr>totalPoints = 20, fechasWonCount = 2, perfectScoresCount = 1, gamesParticipated = 4\<rparr>),
     (''top'', \<lparr>totalPoints = 30, fechasWonCount = 0, perfectScoresCount = 0, gamesParticipated = 3\<rparr>)]"

definition namePreds :: "prediction list" where
  "namePreds = [namedPrediction ''a'' ''zed'', namedPrediction ''a'' ''abe'', namedPrediction ''b'' ''bob'']"

definition namePredsSwapped :: "prediction list" where
  "namePredsSwapped = [namedPrediction ''a'' ''abe'', namedPrediction ''a'' ''zed'', namedPrediction ''b'' ''bob'']"

text \<open>
  Predictions with timestamps. The most recent prediction of \<open>m\<close> is the second of
  three; the first prediction of \<open>abe\<close> carries an invalid date.
\<close>

definition timedPreds :: "prediction list" where
  "timedPreds =
    [timedPrediction ''m'' ''old'' (Millis 100),
     timedPrediction ''abe'' ''dan'' InvalidDate,
     timedPrediction ''m'' ''carl'' (Millis 300),
     timedPrediction ''abe'' ''bob'' (Millis 500),
     timedPrediction ''m'' ''mid'' (Millis 200)]"

text \<open>
  Predictions with scores, names and timestamps: \<open>A\<close> and \<open>B\<close> predict both games of
  \<open>tieGames\<close> exactly and are tied on all counters; the latest name of \<open>A\<close> is \<open>zoe\<close>, that
  of \<open>B\<close> is \<open>bea\<close>.
\<close>

definition stampedPrediction :: "string \<Rightarrow> string \<Rightarrow> jsval \<Rightarrow> jsval \<Rightarrow> string \<Rightarrow> int \<Rightarrow> prediction" where
  "stampedPrediction u g h a n t =
    \<lparr>userId = Some u, gameId = g, predictedHomeScore = h, predictedAwayScore = a,
     playerName = Some n, timestamp = Millis t\<rparr>"

definition stampedPreds :: "prediction list" where
  "stampedPreds =
    [stampedPrediction ''A'' ''G1'' (Num 2) (Num 1) ''ann'' 100,
     stampedPrediction ''A'' ''G2'' (Num 0) (Num 0) ''zoe'' 200,
     stampedPrediction ''B'' ''G1'' (Num 2) (Num 1) ''bea'' 50,
     stampedPrediction ''B'' ''G2'' (Num 0) (Num 0) ''bea'' 60]"

definition duplicateGames :: "game list" where
  "duplicateGames = [lowerGame ''G1'' ''finished'' (Num 2) (Num 1) (Some ''W1''),
                     lowerGame ''G1'' ''upcoming'' Null Null (Some ''W1'')]"

text \<open>
  Inputs with an inherited name: a user called \<open>constructor\<close> beside a user \<open>A\<close>, and a
  game whose week label is \<open>constructor\<close>.
\<close>

definition weekOneGame :: "game list" where
  "weekOneGame = [lowerGame ''G1'' ''finished'' (Num 2) (Num 1) (Some ''W1'')]"

definition constructorUserPreds :: "prediction list" where
  "constructorUserPreds = [mkPrediction ''A'' ''G1'' (Num 2) (Num 1),
                           mkPrediction ''constructor'' ''G1'' (Num 3) (Num 1)]"

definition constructorWeekGame :: "game list" where
  "constructorWeekGame = [lowerGame ''G1'' ''finished'' (Num 2) (Num 1) (Some ''constructor'')]"

section \<open>Properties of calculatePoints\<close>

lemmas js_defs = gameStatusOf_def homeScoreOf_def awayScoreOf_def toLowerCase_def lowerChar_def
  orStr_def orElse_def truthy_def outcomeOf_def js_gt_def js_lt_def js_sub_def js_abs_def
  num_strict_eq_def

lemmas input_defs = lowerGame_def upperGame_def mkPrediction_def namedPrediction_def

lemma calculatePoints_Num:
  assumes "predictedHomeScore p = Num h" and "predictedAwayScore p = Num a"
    and "gameStatusOf g = ''finished''" and "homeScoreOf g = Num H" and "awayScoreOf g = Num A"
  shows "calculatePoints p g =
      Some ((if (if h > a then HW else if h < a then AW else D)
                = (if H > A then HW else if H < A then AW else D) then 5 else 0)
          + (if h = H then 2 else 0)
          + (if a = A then 2 else 0)
          + (if \<bar>h - a\<bar> = \<bar>H - A\<bar> then 1 else 0))"
  using assms
  by (simp add: calculatePoints_def Let_def outcomeOf_def js_gt_def js_lt_def js_sub_def
      js_abs_def num_strict_eq_def)

lemma calculatePoints_null:
  "gameStatusOf g \<noteq> ''finished'' \<or> homeScoreOf g = Null \<or> awayScoreOf g = Null
    \<Longrightarrow> calculatePoints p g = None"
  by (auto simp add: calculatePoints_def Let_def)

lemma calculatePoints_null_prediction:
  "gameStatusOf g = ''finished'' \<Longrightarrow> homeScoreOf g \<noteq> Null \<Longrightarrow> awayScoreOf g \<noteq> Null
    \<Longrightarrow> predictedHomeScore p = Null \<or> predictedAwayScore p = Null
    \<Longrightarrow> calculatePoints p g = Some 0"
  by (auto simp add: calculatePoints_def Let_def)


text \<open>
  C1. For a prediction with both predicted scores present (\<open>h\<close>, \<open>a\<close>) and a finished game
  with both actual scores present (\<open>H\<close>, \<open>A\<close>), calculatePoints returns the sum of four
  independent components: 5 when the predicted outcome (home win if \<open>h > a\<close>, away win if
  \<open>h < a\<close>, draw otherwise) is the actual outcome, 2 when \<open>h = H\<close>, 2 when \<open>a = A\<close>, and 1
  when \<open>|h - a| = |H - A|\<close>.
\<close>

theorem calculatePoints_sum_of_components:
  assumes "predictedHomeScore p = Num h" and "predictedAwayScore p = Num a"
    and "gameStatusOf g = ''finished''" and "homeScoreOf g = Num H" and "awayScoreOf g = Num A"
  shows "calculatePoints p g =
      Some ((if (if h > a then HW else if h < a then AW else D)
                = (if H > A then HW else if H < A then AW else D) then 5 else 0)
          + (if h = H then 2 else 0)
          + (if a = A then 2 else 0)
          + (if \<bar>h - a\<bar> = \<bar>H - A\<bar> then 1 else 0))"
  using assms by (rule calculatePoints_Num)

theorem calculatePoints_sum_of_components_witness:
  "predictedHomeScore (mkPrediction ''B'' ''G1'' (Num 3) (Num 1)) = Num 3
   \<and> predictedAwayScore (mkPrediction ''B'' ''G1'' (Num 3) (Num 1)) = Num 1
   \<and> gameStatusOf (lowerGame ''G1'' ''Finished'' (Num 2) (Num 1) (Some ''W1'')) = ''finished''
   \<and> homeScoreOf (lowerGame ''G1'' ''Finished'' (Num 2) (Num 1) (Some ''W1'')) = Num 2
   \<and> awayScoreOf (lowerGame ''G1'' ''Finished'' (Num 2) (Num 1) (Some ''W1'')) = Num 1
   \<and> calculatePoints (mkPrediction ''B'' ''G1'' (Num 3) (Num 1))
         (lowerGame ''G1'' ''Finished'' (Num 2) (Num 1) (Some ''W1'')) = Some 7"
  using calculatePoints_sum_of_components
    [of "mkPrediction ''B'' ''G1'' (Num 3) (Num 1)" 3 1
        "lowerGame ''G1'' ''Finished'' (Num 2) (Num 1) (Some ''W1'')" 2 1]
  by (simp add: input_defs js_defs)

text \<open>
  C4. For a finished game with actual scores \<open>(H, A)\<close> and a prediction with entered scores
  \<open>(h, a)\<close>, calculatePoints returns a number among 0, 1, ..., 10, and it returns 10 exactly
  when \<open>h = H\<close> and \<open>a = A\<close>.
\<close>

theorem calculatePoints_range_and_perfect:
  assumes "predictedHomeScore p = Num h" and "predictedAwayScore p = Num a"
    and "gameStatusOf g = ''finished''" and "homeScoreOf g = Num H" and "awayScoreOf g = Num A"
  shows "\<exists>n. calculatePoints p g = Some n \<and> n \<in> {0, 1, 2, 3, 4, 5, 6, 7, 8, 9, 10}
             \<and> (n = 10 \<longleftrightarrow> h = H \<and> a = A)"
  unfolding calculatePoints_Num [OF assms]
  by (auto split: if_splits)

theorem calculatePoints_range_and_perfect_witness:
  "predictedHomeScore (mkPrediction ''A'' ''G1'' (Num 2) (Num 1)) = Num 2
   \<and> predictedAwayScore (mkPrediction ''A'' ''G1'' (Num 2) (Num 1)) = Num 1
   \<and> gameStatusOf (upperGame ''G1'' ''FINISHED'' (Num 2) (Num 1) (Some ''W1'')) = ''finished''
   \<and> homeScoreOf (upperGame ''G1'' ''FINISHED'' (Num 2) (Num 1) (Some ''W1'')) = Num 2
   \<and> awayScoreOf (upperGame ''G1'' ''FINISHED'' (Num 2) (Num 1) (Some ''W1'')) = Num 1
   \<and> calculatePoints (mkPrediction ''A'' ''G1'' (Num 2) (Num 1))
         (upperGame ''G1'' ''FINISHED'' (Num 2) (Num 1) (Some ''W1'')) = Some 10"
  using calculatePoints_range_and_perfect
    [of "mkPrediction ''A'' ''G1'' (Num 2) (Num 1)" 2 1
        "upperGame ''G1'' ''FINISHED'' (Num 2) (Num 1) (Some ''W1'')" 2 1]
  by (auto simp add: input_defs js_defs)

text \<open>
  C3. calculatePoints is to return \<open>null\<close> whenever the status is not \<open>finished\<close> or an
  actual score is absent. It does when the status differs or a score is \<open>null\<close>
  (\<open>calculatePoints_null\<close>). A finished game whose score properties are missing under both
  names is not caught by the \<^verbatim>\<open>=== null\<close> test: the scoring runs on \<open>undefined\<close>, and a
  predicted draw is awarded the 5 points of a correct outcome.
\<close>

theorem calculatePoints_missing_score_is_scored:
  "calculatePoints (mkPrediction ''A'' ''G1'' (Num 1) (Num 1))
     (lowerGame ''G1'' ''finished'' Undefined Undefined (Some ''W1'')) = Some 5"
  by (simp add: calculatePoints_def input_defs js_defs)

theorem calculatePoints_missing_score_is_scored_witness:
  "calculatePoints (mkPrediction ''A'' ''G1'' (Num 1) (Num 1))
     (lowerGame ''G1'' ''finished'' Undefined Undefined (Some ''W1'')) \<noteq> None"
  using calculatePoints_missing_score_is_scored by simp

text \<open>
  C5. A prediction without predicted scores against a finished, scoreable game is to get
  exactly 0. It does when a predicted score is \<open>null\<close> (\<open>calculatePoints_null_prediction\<close>).
  When the two properties are missing, the \<^verbatim>\<open>=== null\<close> test lets the prediction through,
  \<open>undefined\<close> compares as a draw, and against a drawn game the prediction is awarded 5.
\<close>

theorem calculatePoints_missing_prediction_is_scored:
  "calculatePoints (mkPrediction ''A'' ''G1'' Undefined Undefined)
     (lowerGame ''G1'' ''finished'' (Num 1) (Num 1) (Some ''W1'')) = Some 5"
  by (simp add: calculatePoints_def input_defs js_defs)

theorem calculatePoints_missing_prediction_is_scored_witness:
  "calculatePoints (mkPrediction ''A'' ''G1'' Undefined Undefined)
     (lowerGame ''G1'' ''finished'' (Num 1) (Num 1) (Some ''W1'')) \<noteq> Some 0"
  using calculatePoints_missing_prediction_is_scored by simp

section \<open>The initialisation loop\<close>

lemma initPlayer_map_of:
  "map_of (initPlayer S p) u =
     (if map_of S u = None \<and> u = userIdOf p \<and> \<not> inherited u then Some zeroStats else map_of S u)"
  by (auto simp add: initPlayer_def Let_def AList.update_conv')

lemma initPlayer_distinct: "distinct (map fst S) \<Longrightarrow> distinct (map fst (initPlayer S p))"
  by (simp add: initPlayer_def Let_def AList.distinct_update)

lemma init_map_of:
  "map_of (foldl initPlayer S ps) u =
     (if map_of S u = None \<and> u \<in> userIdOf ` set ps \<and> \<not> inherited u then Some zeroStats
      else map_of S u)"
proof (induction ps arbitrary: S)
  case Nil
  then show ?case by simp
next
  case (Cons p ps)
  show ?case by (auto simp add: Cons.IH initPlayer_map_of)
qed

lemma init_distinct: "distinct (map fst S) \<Longrightarrow> distinct (map fst (foldl initPlayer S ps))"
  by (induction ps arbitrary: S) (simp_all add: initPlayer_distinct)

section \<open>The scoring loop: statistics\<close>

lemma addAll_Nil: "addAll [] s = s"
  by (simp add: addAll_def)

lemma addAll_Cons: "addAll pts (addPoints x s) = addAll (x # pts) s"
  by (simp add: addAll_def addPoints_def Let_def)

lemma map_entry_keys: "map fst (AList.map_entry k f xs) = map fst xs"
  by (induction xs) auto

lemma processPrediction_fst:
  "map_of (fst (processPrediction gm st p)) u =
    (case pointsOf gm p of
       None \<Rightarrow> map_of (fst st) u
     | Some x \<Rightarrow> if u = userIdOf p then map_option (addPoints x) (map_of (fst st) u)
                 else map_of (fst st) u)"
  by (auto simp add: processPrediction_def pointsOf_def Let_def AList.map_of_map_entry
      split: option.splits)

lemma processPrediction_keys:
  "map fst (fst (processPrediction gm st p)) = map fst (fst st)"
  by (auto simp add: processPrediction_def Let_def map_entry_keys split: option.splits)

lemma userPoints_Cons:
  "userPoints gm (p # ps) u =
    (if userIdOf p = u
     then (case pointsOf gm p of None \<Rightarrow> userPoints gm ps u | Some x \<Rightarrow> x # userPoints gm ps u)
     else userPoints gm ps u)"
  by (simp add: userPoints_def split: option.splits)

lemma scoring_fst:
  "map_of (fst (foldl (processPrediction gm) st ps)) u =
     map_option (addAll (userPoints gm ps u)) (map_of (fst st) u)"
proof (induction ps arbitrary: st)
  case Nil
  then show ?case by (simp add: userPoints_def addAll_Nil option.map_ident)
next
  case (Cons p ps)
  show ?case
    by (cases "map_of (fst st) u")
       (auto simp add: Cons.IH processPrediction_fst userPoints_Cons addAll_Cons split: option.splits)
qed

lemma scoring_keys:
  "map fst (fst (foldl (processPrediction gm) st ps)) = map fst (fst st)"
  by (induction ps arbitrary: st) (simp_all add: processPrediction_keys)

section \<open>The scoring loop: week totals\<close>

lemma accum_Number: "accum (Some (Number v)) xs = Some (Number (v + sum_list xs))"
  by (induction xs arbitrary: v) (simp_all add: bump_def)

lemma accum_None: "accum None xs = (if xs = [] then None else Some (Number (sum_list xs)))"
  by (cases xs) (simp_all add: accum_Number bump_def)

lemma map_entry_nonempty: "AList.map_entry k f xs = [] \<longleftrightarrow> xs = []"
  by (cases xs) auto

lemma addFechaScore_eq:
  "addFechaScore w u x F =
     AList.map_entry w (weekStep u x)
       (if map_of F w = None \<and> \<not> inherited w then AList.update w [] F else F)"
proof -
  have "(\<lambda>players. addToEntry u x (if falsyEntry players u then AList.update u (Number 0) players
                                     else players)) = weekStep u x"
    by (simp add: fun_eq_iff weekStep_def)
  then show ?thesis
    by (simp add: addFechaScore_def Let_def)
qed

lemma weekStep_lookup:
  assumes "\<not> inherited u"
  shows "map_of (weekStep u x players) u' =
           (if u' = u then Some (bump x (map_of players u)) else map_of players u')"
  using assms
  by (auto simp add: weekStep_def addToEntry_def falsyEntry_def bump_def AList.update_conv'
      split: option.splits weekValue.splits)

lemma weekStep_distinct:
  assumes "distinct (map fst players)"
  shows "distinct (map fst (weekStep u x players))"
  using assms
  by (auto simp add: weekStep_def addToEntry_def AList.distinct_update
      split: option.splits weekValue.splits)

lemma weekStep_nonempty:
  assumes "\<not> inherited u"
  shows "weekStep u x players \<noteq> []"
proof -
  have "map_of (weekStep u x players) u \<noteq> None"
    by (simp add: weekStep_lookup [OF assms])
  then show ?thesis
    by auto
qed

lemma addFechaScore_fview:
  assumes "\<not> inherited w" and "\<not> inherited u"
  shows "fview (addFechaScore w u x F) w' u' =
     (if w' = w \<and> u' = u then Some (bump x (fview F w u)) else fview F w' u')"
  using assms(1)
  by (auto simp add: addFechaScore_eq fview_def AList.map_of_map_entry AList.update_conv'
      weekStep_lookup [OF assms(2)] split: option.splits)

lemma addFechaScore_map_of:
  "map_of (addFechaScore w u x F) w' = Some players \<Longrightarrow>
     (w' \<noteq> w \<and> map_of F w' = Some players)
     \<or> (w' = w \<and> (\<exists>old. (map_of F w = Some old \<or> (map_of F w = None \<and> old = []))
            \<and> players = weekStep u x old))"
  by (auto simp add: addFechaScore_eq AList.map_of_map_entry AList.update_conv'
      split: option.splits if_splits)

lemma addFechaScore_keys_distinct:
  "distinct (map fst F) \<Longrightarrow> distinct (map fst (addFechaScore w u x F))"
  by (simp add: addFechaScore_eq AList.distinct_map_entry AList.distinct_update)

lemma addFechaScore_distinct:
  assumes "fechaDistinct F"
  shows "fechaDistinct (addFechaScore w u x F)"
proof -
  have "distinct (map fst players)"
    if "map_of (addFechaScore w u x F) w' = Some players" for w' players
    using addFechaScore_map_of [OF that] assms
    by (auto simp add: fechaDistinct_def weekStep_distinct simp del: map_of_eq_Some_iff)
  then show ?thesis
    using assms by (simp add: fechaDistinct_def addFechaScore_keys_distinct del: map_of_eq_Some_iff)
qed

lemma addFechaScore_inv:
  assumes "fechaInv F" and "\<not> inherited u"
  shows "fechaInv (addFechaScore w u x F)"
proof -
  have "players \<noteq> [] \<and> distinct (map fst players)"
    if "map_of (addFechaScore w u x F) w' = Some players" for w' players
    using addFechaScore_map_of [OF that] assms
    by (auto simp add: fechaInv_def weekStep_distinct weekStep_nonempty
        simp del: map_of_eq_Some_iff)
  then show ?thesis
    using assms by (simp add: fechaInv_def addFechaScore_keys_distinct del: map_of_eq_Some_iff)
qed


lemma processPrediction_snd:
  "snd (processPrediction gm st p) =
    (case pointsOf gm p of
       None \<Rightarrow> snd st
     | Some x \<Rightarrow> (case weekOf gm p of None \<Rightarrow> snd st
                  | Some w \<Rightarrow> addFechaScore w (userIdOf p) x (snd st)))"
  by (auto simp add: processPrediction_def pointsOf_def weekOf_def Let_def split: option.splits)

lemma weekPoints_Cons:
  "weekPoints gm (p # ps) w u =
    (if userIdOf p = u \<and> weekOf gm p = Some w
     then (case pointsOf gm p of None \<Rightarrow> weekPoints gm ps w u | Some x \<Rightarrow> x # weekPoints gm ps w u)
     else weekPoints gm ps w u)"
  by (simp add: weekPoints_def split: option.splits)

lemma scoring_snd:
  assumes "\<forall>p \<in> set ps. plainPred gm p"
  shows "fview (snd (foldl (processPrediction gm) st ps)) w u =
     accum (fview (snd st) w u) (weekPoints gm ps w u)"
  using assms
proof (induction ps arbitrary: st)
  case Nil
  then show ?case by (simp add: weekPoints_def)
next
  case (Cons p ps)
  from Cons.prems have p: "\<not> inherited (userIdOf p)"
    and w: "\<And>w. weekOf gm p = Some w \<Longrightarrow> \<not> inherited w"
    by (auto simp add: plainPred_def)
  from Cons.prems have "\<forall>p \<in> set ps. plainPred gm p"
    by simp
  then show ?case
    using p w
    by (auto simp add: Cons.IH processPrediction_snd weekPoints_Cons addFechaScore_fview
        split: option.splits)
qed

lemma scoring_inv:
  assumes "\<forall>p \<in> set ps. plainPred gm p" and "fechaInv (snd st)"
  shows "fechaInv (snd (foldl (processPrediction gm) st ps))"
  using assms
proof (induction ps arbitrary: st)
  case Nil
  then show ?case by simp
next
  case (Cons p ps)
  from Cons.prems have "\<not> inherited (userIdOf p)"
    by (simp add: plainPred_def)
  with Cons.prems(2) have "fechaInv (snd (processPrediction gm st p))"
    by (auto simp add: processPrediction_snd addFechaScore_inv split: option.splits)
  with Cons.prems(1) show ?case
    by (simp add: Cons.IH)
qed

lemma scoring_distinct:
  "fechaDistinct (snd st) \<Longrightarrow> fechaDistinct (snd (foldl (processPrediction gm) st ps))"
proof (induction ps arbitrary: st)
  case Nil
  then show ?case by simp
next
  case (Cons p ps)
  have "fechaDistinct (snd (processPrediction gm st p))"
    using Cons.prems
    by (auto simp add: processPrediction_snd addFechaScore_distinct split: option.splits)
  then show ?case
    by (simp add: Cons.IH)
qed



section \<open>The week-win loop\<close>

lemma credit_inner:
  "distinct ks \<Longrightarrow>
   map_of (foldl (\<lambda>st k. if P k then AList.map_entry k f st else st) S ks) u =
     (if u \<in> set ks \<and> P u then map_option f (map_of S u) else map_of S u)"
proof (induction ks arbitrary: S)
  case Nil
  then show ?case by simp
next
  case (Cons k ks)
  then show ?case
    by (auto simp add: AList.map_of_map_entry split: option.splits)
qed

lemma credit_inner_keys:
  "map fst (foldl (\<lambda>st k. if P k then AList.map_entry k f st else st) S ks) = map fst S"
  by (induction ks arbitrary: S) (simp_all add: map_entry_keys)

lemma isMaxScore_key: "isMaxScore (map_of players u) m \<Longrightarrow> u \<in> fst ` set players"
proof -
  assume "isMaxScore (map_of players u) m"
  then have "map_of players u \<noteq> None"
    by (auto simp add: isMaxScore_def split: option.splits)
  then show ?thesis
    by (simp add: map_of_eq_None_iff)
qed

lemma creditFecha_map_of:
  assumes "distinct (map fst (snd entry))"
  shows "map_of (creditFecha S entry) u =
     (if winsEntry u entry then map_option creditWin (map_of S u) else map_of S u)"
proof (cases "snd entry = []")
  case True
  then show ?thesis
    by (simp add: creditFecha_def winsEntry_def isMaxScore_def)
next
  case False
  have "(\<lambda>s. s\<lparr>fechasWonCount := fechasWonCount s + 1\<rparr>) = creditWin"
    by (simp add: fun_eq_iff creditWin_def)
  then show ?thesis
    using False assms isMaxScore_key [of "snd entry" u]
    by (auto simp add: creditFecha_def winsEntry_def Let_def credit_inner)
qed

lemma creditFecha_keys: "map fst (creditFecha S entry) = map fst S"
  by (simp add: creditFecha_def Let_def credit_inner_keys)

lemma credit_map_of:
  assumes "\<forall>entry \<in> set F. distinct (map fst (snd entry))"
  shows "map_of (foldl creditFecha S F) u =
           map_option (addWins (length (filter (winsEntry u) F))) (map_of S u)"
  using assms
proof (induction F arbitrary: S)
  case Nil
  then show ?case by (simp add: addWins_def option.map_ident)
next
  case (Cons e F)
  then show ?case
    by (cases "map_of S u") (auto simp add: creditFecha_map_of addWins_def creditWin_def)
qed

lemma credit_keys: "map fst (foldl creditFecha S F) = map fst S"
  by (induction F arbitrary: S) (simp_all add: creditFecha_keys)

section \<open>calculatePlayerStats on every input\<close>

lemma fechaScores_distinct: "fechaDistinct (fechaScoresOf gm ps)"
  unfolding fechaScoresOf_def by (rule scoring_distinct) (simp add: fechaDistinct_def)

lemma fechaScores_inner_distinct:
  "\<forall>entry \<in> set (fechaScoresOf gm ps). distinct (map fst (snd entry))"
  using fechaScores_distinct [of gm ps] by (auto simp add: fechaDistinct_def)

lemma calculatePlayerStats_keys:
  "map fst (calculatePlayerStats gs ps) = map fst (foldl initPlayer [] ps)"
  by (simp add: calculatePlayerStats_def Let_def credit_keys scoring_keys)

lemma calculatePlayerStats_distinct: "distinct (map fst (calculatePlayerStats gs ps))"
  by (simp add: calculatePlayerStats_keys init_distinct)

lemma calculatePlayerStats_dom:
  "fst ` set (calculatePlayerStats gs ps) = {u \<in> userIdOf ` set ps. \<not> inherited u}"
proof -
  have "fst ` set (calculatePlayerStats gs ps) = dom (map_of (foldl initPlayer [] ps))"
    by (metis calculatePlayerStats_keys dom_map_of_conv_image_fst list.set_map)
  also have "\<dots> = {u \<in> userIdOf ` set ps. \<not> inherited u}"
    by (auto simp add: dom_def init_map_of)
  finally show ?thesis .
qed

lemma calculatePlayerStats_raw:
  "map_of (calculatePlayerStats gs ps) u =
     (if u \<in> userIdOf ` set ps \<and> \<not> inherited u
      then Some (addWins (length (filter (winsEntry u) (fechaScoresOf (buildGameMap gs) ps)))
                  (addAll (userPoints (buildGameMap gs) ps u) zeroStats))
      else None)"
proof -
  let ?gm = "buildGameMap gs"
  let ?st = "foldl (processPrediction ?gm) (foldl initPlayer [] ps, []) ps"
  have inner: "\<forall>entry \<in> set (snd ?st). distinct (map fst (snd entry))"
    using fechaScores_inner_distinct [of ?gm ps] by (simp add: fechaScoresOf_def)
  have "map_of (calculatePlayerStats gs ps) u =
      map_option (addWins (length (filter (winsEntry u) (fechaScoresOf ?gm ps))))
        (map_of (fst ?st) u)"
    unfolding calculatePlayerStats_def Let_def fechaScoresOf_def
    by (rule credit_map_of [OF inner])
  also have "map_of (fst ?st) u =
      map_option (addAll (userPoints ?gm ps u)) (map_of (foldl initPlayer [] ps) u)"
    by (simp add: scoring_fst)
  also have "map_of (foldl initPlayer [] ps) u =
      (if u \<in> userIdOf ` set ps \<and> \<not> inherited u then Some zeroStats else None)"
    by (simp add: init_map_of)
  finally show ?thesis
    by simp
qed

section \<open>calculatePlayerStats in closed form, without inherited names\<close>

lemma buildGameMap_fold_range:
  "foldl (\<lambda>gameMap game. gameMap(game_id game \<mapsto> game)) m gs k = Some g
     \<Longrightarrow> g \<in> set gs \<or> m k = Some g"
proof (induction gs arbitrary: m)
  case Nil
  then show ?case by simp
next
  case (Cons a gs)
  from Cons.prems have "g \<in> set gs \<or> (m(game_id a \<mapsto> a)) k = Some g"
    by (intro Cons.IH) simp
  then show ?case
    by (auto split: if_splits)
qed

lemma buildGameMap_range: "buildGameMap gs k = Some g \<Longrightarrow> g \<in> set gs"
  using buildGameMap_fold_range [of Map.empty gs k g] by (simp add: buildGameMap_def)

lemma plainKeys_plainPred:
  assumes "plainKeys gs ps" and "p \<in> set ps"
  shows "plainPred (buildGameMap gs) p"
proof -
  have "\<not> inherited w" if "weekOf (buildGameMap gs) p = Some w" for w
  proof -
    from that obtain g where "buildGameMap gs (gameId p) = Some g" "fechaOfGame g = Some w"
      by (auto simp add: weekOf_def split: option.splits)
    then have "g \<in> set gs" "fechaOfGame g = Some w"
      by (simp_all add: buildGameMap_range)
    with assms(1) show ?thesis
      by (force simp add: plainKeys_def plainUsers_def plainWeeks_def)
  qed
  moreover from assms have "\<not> inherited (userIdOf p)"
    by (simp add: plainKeys_def plainUsers_def plainWeeks_def)
  ultimately show ?thesis
    by (simp add: plainPred_def split: option.splits)
qed

lemma map_filter_nonempty: "List.map_filter f xs \<noteq> [] \<longleftrightarrow> (\<exists>x \<in> set xs. f x \<noteq> None)"
  by (auto simp add: List.map_filter_def filter_empty_conv)

lemma scoredInWeek_iff:
  "scoredInWeek gm ps w u \<longleftrightarrow>
     (\<exists>p \<in> set ps. userIdOf p = u \<and> weekOf gm p = Some w \<and> pointsOf gm p \<noteq> None)"
  by (auto simp add: scoredInWeek_def weekPoints_def map_filter_nonempty)

lemma weekLabels_iff: "w \<in> set (weekLabels gm ps) \<longleftrightarrow> (\<exists>u. scoredInWeek gm ps w u)"
proof -
  have "w \<in> set (weekLabels gm ps) \<longleftrightarrow>
          (\<exists>p \<in> set ps. weekOf gm p = Some w \<and> pointsOf gm p \<noteq> None)"
    by (auto simp add: weekLabels_def List.map_filter_def image_iff)
  then show ?thesis
    unfolding scoredInWeek_iff by blast
qed

lemma scoredInWeek_user: "scoredInWeek gm ps w u \<Longrightarrow> u \<in> set (users ps)"
  by (auto simp add: scoredInWeek_iff users_def)

lemma fechaScores_inv:
  assumes "\<forall>p \<in> set ps. plainPred gm p"
  shows "fechaInv (fechaScoresOf gm ps)"
  unfolding fechaScoresOf_def using assms by (rule scoring_inv) (simp add: fechaInv_def)

lemma fechaScores_view:
  assumes "\<forall>p \<in> set ps. plainPred gm p"
  shows "fview (fechaScoresOf gm ps) w u =
     (if scoredInWeek gm ps w u then Some (Number (weekTotal gm ps w u)) else None)"
proof -
  have "fview [] w u = None"
    by (simp add: fview_def)
  then show ?thesis
    unfolding fechaScoresOf_def scoring_snd [OF assms]
    by (simp add: accum_None scoredInWeek_def weekTotal_def)
qed

lemma fechaScores_keys:
  assumes plain: "\<forall>p \<in> set ps. plainPred gm p"
  shows "w \<in> fst ` set (fechaScoresOf gm ps) \<longleftrightarrow> (\<exists>u. scoredInWeek gm ps w u)"
proof
  assume "w \<in> fst ` set (fechaScoresOf gm ps)"
  then obtain players where m: "map_of (fechaScoresOf gm ps) w = Some players"
    by (metis map_of_eq_None_iff not_Some_eq)
  with fechaScores_inv [OF plain] have "players \<noteq> []"
    by (simp add: fechaInv_def del: map_of_eq_Some_iff)
  then obtain a b rest where "players = (a, b) # rest"
    by (cases players) auto
  then have "map_of players a = Some b"
    by simp
  with m have "fview (fechaScoresOf gm ps) w a = Some b"
    by (simp add: fview_def)
  then show "\<exists>u. scoredInWeek gm ps w u"
    by (auto simp add: fechaScores_view [OF plain] split: if_splits)
next
  assume "\<exists>u. scoredInWeek gm ps w u"
  then obtain u where "fview (fechaScoresOf gm ps) w u \<noteq> None"
    by (auto simp add: fechaScores_view [OF plain])
  then have "map_of (fechaScoresOf gm ps) w \<noteq> None"
    by (auto simp add: fview_def split: option.splits)
  then show "w \<in> fst ` set (fechaScoresOf gm ps)"
    by (simp add: map_of_eq_None_iff)
qed

lemma weekMax_image:
  "weekMax gm ps w = Max (weekTotal gm ps w ` {u. scoredInWeek gm ps w u})"
proof -
  have "set (filter (scoredInWeek gm ps w) (users ps)) = {u. scoredInWeek gm ps w u}"
    using scoredInWeek_user [of gm ps w] by auto
  then show ?thesis
    by (simp add: weekMax_def)
qed

lemma numbers_set: "set (List.map_filter numberOf vs) = {n. Number n \<in> set vs}"
  by (induction vs) (auto simp add: numberOf_def split: weekValue.splits)

lemma mathMax_numbers: "mathMax (map Number ns) = Some (Max (set ns))"
proof -
  have "set (List.map_filter numberOf (map Number ns)) = set ns"
    unfolding numbers_set by auto
  moreover have "Text \<notin> set (map Number ns)"
    by auto
  ultimately show ?thesis
    by (simp add: mathMax_def)
qed

lemma entry_wins:
  assumes plain: "\<forall>p \<in> set ps. plainPred gm p"
    and "entry \<in> set (fechaScoresOf gm ps)"
  shows "winsEntry u entry \<longleftrightarrow> wonWeek gm ps (fst entry) u"
proof -
  obtain w players where e: "entry = (w, players)" by (cases entry)
  have inv: "fechaInv (fechaScoresOf gm ps)" by (rule fechaScores_inv [OF plain])
  from assms(2) e inv have m: "map_of (fechaScoresOf gm ps) w = Some players"
    by (simp add: fechaInv_def)
  with inv have d: "distinct (map fst players)"
    by (simp add: fechaInv_def del: map_of_eq_Some_iff)
  have look: "map_of players u' =
      (if scoredInWeek gm ps w u' then Some (Number (weekTotal gm ps w u')) else None)" for u'
    using fechaScores_view [OF plain, of w u'] m by (simp add: fview_def)
  have "v \<in> set (map snd players) \<longleftrightarrow> (\<exists>u'. map_of players u' = Some v)" for v
    using d by force
  then have vals: "v \<in> set (map snd players) \<longleftrightarrow>
      (\<exists>u'. scoredInWeek gm ps w u' \<and> v = Number (weekTotal gm ps w u'))" for v
    unfolding look by (simp only: if_split_mem2 split: if_splits) auto
  then have noText: "Text \<notin> set (map snd players)"
    by blast
  have "n \<in> set (List.map_filter numberOf (map snd players)) \<longleftrightarrow>
      n \<in> weekTotal gm ps w ` {u'. scoredInWeek gm ps w u'}" for n
    unfolding numbers_set using vals [of "Number n"] by blast
  then have "set (List.map_filter numberOf (map snd players)) =
      weekTotal gm ps w ` {u'. scoredInWeek gm ps w u'}"
    by blast
  then have "mathMax (map snd players) = Some (weekMax gm ps w)"
    using noText by (simp only: mathMax_def weekMax_image if_False)
  then show ?thesis
    by (simp add: e winsEntry_def isMaxScore_def wonWeek_def look)
qed

lemma distinct_filter_length:
  assumes "distinct xs" and "distinct ys" and "set xs = set ys"
  shows "length (filter Q xs) = length (filter Q ys)"
proof -
  have "length (filter Q xs) = card (set (filter Q xs))"
    using assms(1) distinct_card [of "filter Q xs"] by simp
  also have "\<dots> = card (set (filter Q ys))"
    using assms(3) by simp
  also have "\<dots> = length (filter Q ys)"
    using assms(2) distinct_card [of "filter Q ys"] by simp
  finally show ?thesis .
qed

lemma wins_count:
  assumes plain: "\<forall>p \<in> set ps. plainPred gm p"
  shows "length (filter (winsEntry u) (fechaScoresOf gm ps)) =
   length (filter (\<lambda>w. wonWeek gm ps w u) (weekLabels gm ps))"
proof -
  have "filter (winsEntry u) (fechaScoresOf gm ps) =
        filter (\<lambda>e. wonWeek gm ps (fst e) u) (fechaScoresOf gm ps)"
    by (rule filter_cong) (simp_all add: entry_wins [OF plain])
  then have "length (filter (winsEntry u) (fechaScoresOf gm ps)) =
        length (filter (\<lambda>w. wonWeek gm ps w u) (map fst (fechaScoresOf gm ps)))"
    by (simp add: filter_map comp_def)
  also have "\<dots> = length (filter (\<lambda>w. wonWeek gm ps w u) (weekLabels gm ps))"
  proof (rule distinct_filter_length)
    show "distinct (map fst (fechaScoresOf gm ps))"
      using fechaScores_inv [OF plain] by (simp add: fechaInv_def)
    show "distinct (weekLabels gm ps)"
      by (simp add: weekLabels_def)
    show "set (map fst (fechaScoresOf gm ps)) = set (weekLabels gm ps)"
      using fechaScores_keys [OF plain] weekLabels_iff [of _ gm ps] by auto
  qed
  finally show ?thesis .
qed

lemma plainKeys_users: "plainKeys gs ps \<Longrightarrow> u \<in> userIdOf ` set ps \<Longrightarrow> \<not> inherited u"
  by (auto simp add: plainKeys_def plainUsers_def plainWeeks_def)

lemma calculatePlayerStats_map_of:
  assumes "plainKeys gs ps"
  shows "map_of (calculatePlayerStats gs ps) u =
     (if u \<in> userIdOf ` set ps then Some (statsOf (buildGameMap gs) ps u) else None)"
proof -
  have plain: "\<forall>p \<in> set ps. plainPred (buildGameMap gs) p"
    using assms by (simp add: plainKeys_plainPred)
  show ?thesis
    using plainKeys_users [OF assms, of u]
    by (auto simp add: calculatePlayerStats_raw wins_count [OF plain] statsOf_def addWins_def
        addAll_def zeroStats_def)
qed

section \<open>Properties of calculatePlayerStats\<close>

text \<open>
  C2, as the code has it. When no userId and no week label is the name of a property of
  \<^verbatim>\<open>Object.prototype\<close>, a user's fechasWonCount after calculatePlayerStats is the number of
  week labels with at least one scored prediction in which the user scored and the user's
  accumulated total equals the maximum accumulated total among the users who scored in
  that week. Each such week counts exactly once, and every user tied at the maximum is
  counted.
\<close>

theorem fechasWonCount_counts_weeks_at_maximum:
  assumes "plainKeys games preds"
    and "map_of (calculatePlayerStats games preds) uid = Some s"
  shows "fechasWonCount s =
           int (length (filter (\<lambda>week. wonWeek (buildGameMap games) preds week uid)
                          (weekLabels (buildGameMap games) preds)))"
  using assms(2)
  by (auto simp add: calculatePlayerStats_map_of [OF assms(1)] statsOf_def split: if_splits)

lemma tie_stats:
  "calculatePlayerStats tieGames tiePreds =
     [(''A'', \<lparr>totalPoints = 10, fechasWonCount = 1, perfectScoresCount = 1, gamesParticipated = 1\<rparr>),
      (''B'', \<lparr>totalPoints = 10, fechasWonCount = 1, perfectScoresCount = 1, gamesParticipated = 1\<rparr>),
      (''C'', \<lparr>totalPoints = 17, fechasWonCount = 1, perfectScoresCount = 1, gamesParticipated = 2\<rparr>)]"
  by code_simp

lemma tie_plain: "plainKeys tieGames tiePreds"
  by code_simp

text \<open>The closed form on the same input: the weeks, and who reached the maximum in each.\<close>

lemma tie_closed:
  "weekLabels (buildGameMap tieGames) tiePreds = [''W1'', ''W2'']"
  "wonWeek (buildGameMap tieGames) tiePreds ''W1'' ''A''"
  "wonWeek (buildGameMap tieGames) tiePreds ''W1'' ''B''"
  "\<not> wonWeek (buildGameMap tieGames) tiePreds ''W1'' ''C''"
  "\<not> wonWeek (buildGameMap tieGames) tiePreds ''W2'' ''A''"
  "wonWeek (buildGameMap tieGames) tiePreds ''W2'' ''C''"
  by code_simp+

theorem fechasWonCount_counts_weeks_at_maximum_witness:
  "plainKeys tieGames tiePreds
   \<and> map_of (calculatePlayerStats tieGames tiePreds) ''A''
      = Some \<lparr>totalPoints = 10, fechasWonCount = 1, perfectScoresCount = 1, gamesParticipated = 1\<rparr>
   \<and> map_of (calculatePlayerStats tieGames tiePreds) ''B''
      = Some \<lparr>totalPoints = 10, fechasWonCount = 1, perfectScoresCount = 1, gamesParticipated = 1\<rparr>
   \<and> length (filter (\<lambda>week. wonWeek (buildGameMap tieGames) tiePreds week ''A'')
                          (weekLabels (buildGameMap tieGames) tiePreds)) = 1
   \<and> length (filter (\<lambda>week. wonWeek (buildGameMap tieGames) tiePreds week ''B'')
                          (weekLabels (buildGameMap tieGames) tiePreds)) = 1"
  using fechasWonCount_counts_weeks_at_maximum [OF tie_plain, of "''A''"]
    fechasWonCount_counts_weeks_at_maximum [OF tie_plain, of "''B''"]
  by (simp add: tie_stats tie_plain)

text \<open>
  C2 as stated fails on inherited names. Beside a user called \<open>constructor\<close>, user \<open>A\<close> has
  the week's maximum (10 against 7) and is not credited: the week total of \<open>constructor\<close>
  is a string and \<^verbatim>\<open>Math.max\<close> is NaN. And a week labelled \<open>constructor\<close> gets no week
  object, so its only scorer is not credited.
\<close>

theorem fechasWonCount_inherited_names:
  "map_of (calculatePlayerStats weekOneGame constructorUserPreds) ''A''
      = Some \<lparr>totalPoints = 10, fechasWonCount = 0, perfectScoresCount = 1, gamesParticipated = 1\<rparr>
   \<and> weekLabels (buildGameMap weekOneGame) constructorUserPreds = [''W1'']
   \<and> weekTotal (buildGameMap weekOneGame) constructorUserPreds ''W1'' ''A'' = 10
   \<and> weekTotal (buildGameMap weekOneGame) constructorUserPreds ''W1'' ''constructor'' = 7
   \<and> wonWeek (buildGameMap weekOneGame) constructorUserPreds ''W1'' ''A''
   \<and> map_of (calculatePlayerStats constructorWeekGame [mkPrediction ''A'' ''G1'' (Num 2) (Num 1)]) ''A''
      = Some \<lparr>totalPoints = 10, fechasWonCount = 0, perfectScoresCount = 1, gamesParticipated = 1\<rparr>
   \<and> wonWeek (buildGameMap constructorWeekGame) [mkPrediction ''A'' ''G1'' (Num 2) (Num 1)]
        ''constructor'' ''A''"
  by code_simp










section \<open>Players and unscored predictions\<close>

lemma statsOf_cong:
  assumes week: "\<And>w v. mset (weekPoints gm ps w v) = mset (weekPoints gm' ps' w v)"
    and user: "mset (userPoints gm ps u) = mset (userPoints gm' ps' u)"
  shows "statsOf gm ps u = statsOf gm' ps' u"
proof -
  have scored: "scoredInWeek gm ps w v = scoredInWeek gm' ps' w v" for w v
    using week [of w v] by (metis mset_zero_iff scoredInWeek_def)
  have total: "weekTotal gm ps w v = weekTotal gm' ps' w v" for w v
    using week [of w v] by (metis sum_mset_sum_list weekTotal_def)
  have "weekMax gm ps w = weekMax gm' ps' w" for w
    by (simp add: weekMax_image scored total)
  then have won: "wonWeek gm ps w v = wonWeek gm' ps' w v" for w v
    by (simp add: wonWeek_def scored total)
  have "set (weekLabels gm ps) = set (weekLabels gm' ps')"
    using weekLabels_iff [of _ gm ps] weekLabels_iff [of _ gm' ps'] by (auto simp add: scored)
  then have wins: "length (filter (\<lambda>w. wonWeek gm ps w u) (weekLabels gm ps)) =
      length (filter (\<lambda>w. wonWeek gm' ps' w u) (weekLabels gm' ps'))"
    unfolding won
    by (intro distinct_filter_length) (simp_all add: weekLabels_def)
  have s: "sum_list (userPoints gm ps u) = sum_list (userPoints gm' ps' u)"
    using user by (metis sum_mset_sum_list)
  have l: "length (userPoints gm ps u) = length (userPoints gm' ps' u)"
    using user by (metis size_mset)
  have "mset (filter (\<lambda>x. x = 10) (userPoints gm ps u)) = mset (filter (\<lambda>x. x = 10) (userPoints gm' ps' u))"
    using user by simp
  then have f: "length (filter (\<lambda>x. x = 10) (userPoints gm ps u)) =
      length (filter (\<lambda>x. x = 10) (userPoints gm' ps' u))"
    by (metis size_mset)
  show ?thesis
    by (simp add: statsOf_def wins s l f)
qed

lemma map_filter_empty: "List.map_filter f xs = [] \<longleftrightarrow> (\<forall>x \<in> set xs. f x = None)"
  using map_filter_nonempty [of f xs] by auto

lemma statsOf_unscored:
  assumes "\<forall>p \<in> set ps. userIdOf p = u \<longrightarrow> pointsOf gm p = None"
  shows "statsOf gm ps u = zeroStats"
proof -
  have "userPoints gm ps u = []"
    using assms by (simp add: userPoints_def map_filter_empty)
  moreover have "\<not> wonWeek gm ps w u" for w
    using assms by (auto simp add: wonWeek_def scoredInWeek_iff)
  ultimately show ?thesis
    by (simp add: statsOf_def zeroStats_def)
qed

lemma statsOf_drop_unscored:
  assumes "pointsOf gm p = None"
  shows "statsOf gm (ps1 @ p # ps2) u = statsOf gm (ps1 @ ps2) u"
proof (rule statsOf_cong)
  have "weekPoints gm (ps1 @ p # ps2) w v = weekPoints gm (ps1 @ ps2) w v" for w v
    using assms by (simp add: weekPoints_def List.map_filter_def)
  then show "mset (weekPoints gm (ps1 @ p # ps2) w v) = mset (weekPoints gm (ps1 @ ps2) w v)" for w v
    by simp
  have "userPoints gm (ps1 @ p # ps2) u = userPoints gm (ps1 @ ps2) u"
    using assms by (simp add: userPoints_def List.map_filter_def)
  then show "mset (userPoints gm (ps1 @ p # ps2) u) = mset (userPoints gm (ps1 @ ps2) u)"
    by simp
qed

text \<open>
  C7, as the code has it. When no userId and no week label is the name of a property of
  \<^verbatim>\<open>Object.prototype\<close>: the keys of the result of calculatePlayerStats are exactly the
  userIds of the predictions, with \<open>unknown\<close> for a prediction without a userId
  (\<open>userIdOf\<close>); a user none of whose predictions is scored (unknown game, or a game that
  cannot be scored) is in the result with all four counters 0; and a prediction \<open>q\<close> whose
  gameId matches no game changes no counter: every user of the other predictions has the
  statistics computed without \<open>q\<close>, and the user of \<open>q\<close>, when new, has all counters 0.
  The model is a total function: no step of the computation can fail.
\<close>

theorem calculatePlayerStats_players:
  "(plainKeys games preds \<longrightarrow> fst ` set (calculatePlayerStats games preds) = userIdOf ` set preds)
   \<and> (plainKeys games preds \<longrightarrow> uid \<in> userIdOf ` set preds
        \<longrightarrow> (\<forall>p \<in> set preds. userIdOf p = uid \<longrightarrow> pointsOf (buildGameMap games) p = None)
        \<longrightarrow> map_of (calculatePlayerStats games preds) uid = Some zeroStats)
   \<and> (plainKeys games (ps1 @ q # ps2) \<longrightarrow> buildGameMap games (gameId q) = None
        \<longrightarrow> (\<forall>u. map_of (calculatePlayerStats games (ps1 @ q # ps2)) u =
               (if u \<in> userIdOf ` set (ps1 @ ps2) then map_of (calculatePlayerStats games (ps1 @ ps2)) u
                else if u = userIdOf q then Some zeroStats else None)))"
proof (intro conjI impI allI)
  assume "plainKeys games preds"
  then show "fst ` set (calculatePlayerStats games preds) = userIdOf ` set preds"
    by (auto simp add: calculatePlayerStats_dom plainKeys_def plainUsers_def plainWeeks_def)
next
  assume "plainKeys games preds" "uid \<in> userIdOf ` set preds"
    and "\<forall>p \<in> set preds. userIdOf p = uid \<longrightarrow> pointsOf (buildGameMap games) p = None"
  then show "map_of (calculatePlayerStats games preds) uid = Some zeroStats"
    by (simp add: calculatePlayerStats_map_of statsOf_unscored)
next
  fix u
  assume plain: "plainKeys games (ps1 @ q # ps2)"
  then have plain': "plainKeys games (ps1 @ ps2)"
    by (simp add: plainKeys_def plainUsers_def plainWeeks_def)
  assume "buildGameMap games (gameId q) = None"
  then have none: "pointsOf (buildGameMap games) q = None"
    by (simp add: pointsOf_def)
  have "statsOf (buildGameMap games) (ps1 @ ps2) (userIdOf q) = zeroStats"
    if "userIdOf q \<notin> userIdOf ` set (ps1 @ ps2)"
  proof (rule statsOf_unscored)
    from that have "\<forall>p \<in> set (ps1 @ ps2). userIdOf p \<noteq> userIdOf q"
      by (metis image_eqI)
    then show "\<forall>p \<in> set (ps1 @ ps2). userIdOf p = userIdOf q \<longrightarrow> pointsOf (buildGameMap games) p = None"
      by simp
  qed
  then show "map_of (calculatePlayerStats games (ps1 @ q # ps2)) u =
               (if u \<in> userIdOf ` set (ps1 @ ps2) then map_of (calculatePlayerStats games (ps1 @ ps2)) u
                else if u = userIdOf q then Some zeroStats else None)"
    by (auto simp add: calculatePlayerStats_map_of [OF plain] calculatePlayerStats_map_of [OF plain']
        statsOf_drop_unscored [OF none])
qed

theorem calculatePlayerStats_players_witness:
  "plainKeys tieGames (tiePreds @ [danglingPred, anonymousPred])
   \<and> fst ` set (calculatePlayerStats tieGames (tiePreds @ [danglingPred, anonymousPred]))
      = {''A'', ''B'', ''C'', ''D'', ''unknown''}
   \<and> map_of (calculatePlayerStats tieGames (tiePreds @ [danglingPred, anonymousPred])) ''D'' = Some zeroStats
   \<and> buildGameMap tieGames (gameId danglingPred) = None
   \<and> map_of (calculatePlayerStats tieGames (tiePreds @ danglingPred # [anonymousPred])) ''A''
      = map_of (calculatePlayerStats tieGames (tiePreds @ [anonymousPred])) ''A''
   \<and> map_of (calculatePlayerStats tieGames (tiePreds @ danglingPred # [anonymousPred])) ''D''
      = Some zeroStats"
proof -
  let ?preds = "tiePreds @ [danglingPred, anonymousPred]"
  have h0: "plainKeys tieGames ?preds"
    by code_simp
  have h1: "''D'' \<in> userIdOf ` set ?preds"
    by code_simp
  have h2: "\<forall>p \<in> set ?preds. userIdOf p = ''D'' \<longrightarrow> pointsOf (buildGameMap tieGames) p = None"
    by code_simp
  have h3: "buildGameMap tieGames (gameId danglingPred) = None"
    by code_simp
  have k: "userIdOf ` set ?preds = {''A'', ''B'', ''C'', ''D'', ''unknown''}"
    by code_simp
  have a: "''A'' \<in> userIdOf ` set (tiePreds @ [anonymousPred])"
    by code_simp
  have d: "''D'' \<notin> userIdOf ` set (tiePreds @ [anonymousPred]) \<and> userIdOf danglingPred = ''D''"
    by code_simp
  note t = calculatePlayerStats_players [of tieGames ?preds "''D''" tiePreds danglingPred "[anonymousPred]"]
  from t h0 k have "fst ` set (calculatePlayerStats tieGames ?preds) = {''A'', ''B'', ''C'', ''D'', ''unknown''}"
    by simp
  moreover from t h0 h1 h2 have "map_of (calculatePlayerStats tieGames ?preds) ''D'' = Some zeroStats"
    by blast
  moreover from t h0 h3 a have "map_of (calculatePlayerStats tieGames (tiePreds @ danglingPred # [anonymousPred])) ''A''
      = map_of (calculatePlayerStats tieGames (tiePreds @ [anonymousPred])) ''A''"
    by simp
  moreover from t h0 h3 d have "map_of (calculatePlayerStats tieGames (tiePreds @ danglingPred # [anonymousPred])) ''D''
      = Some zeroStats"
    by simp
  ultimately show ?thesis
    using h0 h3 by simp
qed

text \<open>
  C7 as stated fails on an inherited name: a user called \<open>constructor\<close> is never
  initialised, so the userId is no key of the result, whether or not the user scored.
\<close>

theorem calculatePlayerStats_players_inherited_name:
  "userIdOf ` set constructorUserPreds = {''A'', ''constructor''}
   \<and> pointsOf (buildGameMap weekOneGame) (mkPrediction ''constructor'' ''G1'' (Num 3) (Num 1)) = Some 7
   \<and> fst ` set (calculatePlayerStats weekOneGame constructorUserPreds) = {''A''}
   \<and> map_of (calculatePlayerStats weekOneGame constructorUserPreds) ''constructor'' = None
   \<and> calculatePlayerStats [] [mkPrediction ''constructor'' ''G1'' (Num 3) (Num 1)] = []"
  by code_simp

section \<open>The two naming conventions\<close>

lemma toLowerCase_Nil: "toLowerCase s = [] \<longleftrightarrow> s = []"
  by (simp add: toLowerCase_def)











section \<open>Sorting with a comparator\<close>

lemma compareStats_le: "compareStats lc ps a b \<le> 0 \<longleftrightarrow> ranksBefore lc ps a b"
  by (auto simp add: compareStats_def ranksBefore_def Let_def)

lemma ranksBefore_total:
  "totalPreorder lc \<Longrightarrow> ranksBefore lc ps a b \<or> ranksBefore lc ps b a"
  unfolding totalPreorder_def ranksBefore_def
  by (metis linorder_less_linear)

lemma ranksBefore_trans:
  assumes "totalPreorder lc" and "ranksBefore lc ps a b" and "ranksBefore lc ps b c"
  shows "ranksBefore lc ps a c"
proof -
  from assms(1) have tr: "\<And>x y z. lc x y \<le> 0 \<Longrightarrow> lc y z \<le> 0 \<Longrightarrow> lc x z \<le> 0"
    unfolding totalPreorder_def by blast
  show ?thesis
    using assms(2,3) tr [of "getLatestPlayerName ps (fst a)" "getLatestPlayerName ps (fst b)"
        "getLatestPlayerName ps (fst c)"]
    unfolding ranksBefore_def by (elim disjE conjE) simp_all
qed

lemma mset_insertBy: "mset (insertBy cmp x ys) = add_mset x (mset ys)"
  by (induction ys) simp_all

lemma mset_sortBy: "mset (sortBy cmp xs) = mset xs"
  unfolding sortBy_def by (induction xs) (simp_all add: mset_insertBy)

lemma set_insertBy: "set (insertBy cmp x ys) = insert x (set ys)"
  by (metis mset_insertBy set_mset_add_mset_insert set_mset_mset)

lemma sorted_insertBy:
  assumes total: "\<And>a b. cmp a b \<le> 0 \<or> cmp b a \<le> 0"
    and trans: "\<And>a b c. cmp a b \<le> 0 \<Longrightarrow> cmp b c \<le> 0 \<Longrightarrow> cmp a c \<le> 0"
    and "sorted_wrt (\<lambda>a b. cmp a b \<le> 0) ys"
  shows "sorted_wrt (\<lambda>a b. cmp a b \<le> 0) (insertBy cmp x ys)"
  using assms(3)
proof (induction ys)
  case Nil
  then show ?case by simp
next
  case (Cons y ys)
  show ?case
  proof (cases "cmp x y \<le> 0")
    case True
    with Cons.prems have "\<forall>z \<in> set ys. cmp x z \<le> 0"
      using trans by auto
    with True Cons.prems show ?thesis by simp
  next
    case False
    with total have "cmp y x \<le> 0" by blast
    with False Cons show ?thesis
      by (simp add: set_insertBy)
  qed
qed

lemma sorted_sortBy:
  assumes "\<And>a b. cmp a b \<le> 0 \<or> cmp b a \<le> 0"
    and "\<And>a b c. cmp a b \<le> 0 \<Longrightarrow> cmp b c \<le> 0 \<Longrightarrow> cmp a c \<le> 0"
  shows "sorted_wrt (\<lambda>a b. cmp a b \<le> 0) (sortBy cmp xs)"
  unfolding sortBy_def
  by (induction xs) (simp_all add: sorted_insertBy [OF assms])

lemma sorted_sortPlayersByStats:
  assumes "totalPreorder lc"
  shows "sorted_wrt (ranksBefore lc ps) (sortPlayersByStats lc entries ps)"
proof -
  have total: "compareStats lc ps a b \<le> 0 \<or> compareStats lc ps b a \<le> 0" for a b
    using ranksBefore_total [OF assms, of ps a b] by (simp add: compareStats_le)
  have trans: "compareStats lc ps a c \<le> 0"
    if "compareStats lc ps a b \<le> 0" and "compareStats lc ps b c \<le> 0" for a b c
    using that ranksBefore_trans [OF assms, of ps a b c] by (simp add: compareStats_le)
  have "sorted_wrt (\<lambda>a b. compareStats lc ps a b \<le> 0) (sortBy (compareStats lc ps) entries)"
    using total trans by (rule sorted_sortBy)
  then show ?thesis
    by (simp add: sortPlayersByStats_def compareStats_le)
qed


lemma latest_fold:
  "foldl (\<lambda>latest pred. if timeGt (predTime pred) (predTime latest) then pred else latest) l xs = r
    \<Longrightarrow> r \<in> set (l # xs)
      \<and> (\<forall>q \<in> set (l # xs). \<not> timeGt (predTime q) (predTime r))
      \<and> (predTime l = None \<longrightarrow> r = l)
      \<and> (predTime l \<noteq> None \<longrightarrow> predTime r \<noteq> None)"
proof (induction xs arbitrary: l)
  case Nil
  then show ?case by (simp add: timeGt_def split: option.splits)
next
  case (Cons x xs)
  let ?l = "if timeGt (predTime x) (predTime l) then x else l"
  from Cons.prems have "foldl (\<lambda>latest pred. if timeGt (predTime pred) (predTime latest) then pred else latest) ?l xs = r"
    by simp
  from Cons.IH [OF this]
  have r: "r \<in> set (?l # xs)" and le: "\<forall>q \<in> set (?l # xs). \<not> timeGt (predTime q) (predTime r)"
    and nan: "predTime ?l = None \<longrightarrow> r = ?l" and valid: "predTime ?l \<noteq> None \<longrightarrow> predTime r \<noteq> None"
    by blast+
  show ?case
  proof (cases "timeGt (predTime x) (predTime l)")
    case True
    then obtain a b where ab: "predTime x = Some a" "predTime l = Some b" "a > b"
      by (auto simp add: timeGt_def split: option.splits)
    with True valid obtain c where c: "predTime r = Some c"
      by auto
    from True le have "\<not> timeGt (predTime x) (predTime r)"
      by simp
    with ab c have "\<not> timeGt (predTime l) (predTime r)"
      by (simp add: timeGt_def)
    with True r le ab c show ?thesis
      by auto
  next
    case False
    show ?thesis
    proof (cases "predTime l")
      case None
      with False nan have "r = l" by simp
      with False None show ?thesis
        by (simp add: timeGt_def split: option.splits)
    next
      case (Some b)
      with False valid obtain c where c: "predTime r = Some c"
        by auto
      from False le have "\<not> timeGt (predTime l) (predTime r)"
        by simp
      with Some c have "c \<ge> b"
        by (simp add: timeGt_def)
      with False Some c have "\<not> timeGt (predTime x) (predTime r)"
        by (auto simp add: timeGt_def split: option.splits)
      with False r le Some c show ?thesis
        by auto
    qed
  qed
qed

lemma getLatestPlayerName_none:
  "filter (\<lambda>p. userId p = Some uid) preds = [] \<Longrightarrow> getLatestPlayerName preds uid = uid"
  by (simp add: getLatestPlayerName_def)

lemma getLatestPlayerName_invalid:
  assumes "filter (\<lambda>p. userId p = Some uid) preds \<noteq> []"
    and "predTime (hd (filter (\<lambda>p. userId p = Some uid) preds)) = None"
  shows "getLatestPlayerName preds uid = orStr (playerName (hd (filter (\<lambda>p. userId p = Some uid) preds))) uid"
proof -
  let ?ups = "filter (\<lambda>p. userId p = Some uid) preds"
  define r where "r = foldl (\<lambda>latest pred. if timeGt (predTime pred) (predTime latest) then pred else latest)
                            (hd ?ups) ?ups"
  from latest_fold [OF r_def [symmetric]] assms(2) have "r = hd ?ups"
    by blast
  moreover have "getLatestPlayerName preds uid = orStr (playerName r) uid"
    using assms(1) by (simp add: getLatestPlayerName_def r_def Let_def)
  ultimately show ?thesis
    by simp
qed

lemma getLatestPlayerName_latest:
  assumes "filter (\<lambda>p. userId p = Some uid) preds \<noteq> []"
    and "predTime (hd (filter (\<lambda>p. userId p = Some uid) preds)) \<noteq> None"
  shows "\<exists>p \<in> set preds. \<exists>t. userId p = Some uid \<and> predTime p = Some t
            \<and> (\<forall>q \<in> set preds. \<forall>s. userId q = Some uid \<longrightarrow> predTime q = Some s \<longrightarrow> s \<le> t)
            \<and> getLatestPlayerName preds uid = orStr (playerName p) uid"
proof -
  let ?ups = "filter (\<lambda>p. userId p = Some uid) preds"
  define r where "r = foldl (\<lambda>latest pred. if timeGt (predTime pred) (predTime latest) then pred else latest)
                            (hd ?ups) ?ups"
  from assms(1) have hd: "hd ?ups \<in> set ?ups"
    by (rule hd_in_set)
  from latest_fold [OF r_def [symmetric]] hd assms(2)
  have r: "r \<in> set ?ups" and le: "\<forall>q \<in> set ?ups. \<not> timeGt (predTime q) (predTime r)"
    and "predTime r \<noteq> None"
    by auto
  then obtain t where t: "predTime r = Some t"
    by auto
  have "s \<le> t" if "q \<in> set preds" "userId q = Some uid" "predTime q = Some s" for q s
  proof -
    from that have "q \<in> set ?ups" by simp
    with le have "\<not> timeGt (predTime q) (predTime r)" by blast
    with that(3) t show ?thesis by (simp add: timeGt_def)
  qed
  moreover have "getLatestPlayerName preds uid = orStr (playerName r) uid"
    using assms(1) by (simp add: getLatestPlayerName_def r_def Let_def)
  ultimately show ?thesis
    using r t by auto
qed

lemma lexCompare_Cons_le:
  "lexCompare (x # xs) (y # ys) \<le> 0 \<longleftrightarrow> x < y \<or> (x = y \<and> lexCompare xs ys \<le> 0)"
  by simp

lemma lexCompare_total: "lexCompare a b \<le> 0 \<or> lexCompare b a \<le> 0"
proof (induction a b rule: lexCompare.induct)
  case (4 x xs y ys)
  then show ?case
    unfolding lexCompare_Cons_le by (cases x y rule: linorder_cases) simp_all
qed simp_all

lemma lexCompare_trans:
  "lexCompare a b \<le> 0 \<Longrightarrow> lexCompare b c \<le> 0 \<Longrightarrow> lexCompare a c \<le> 0"
proof (induction a b arbitrary: c rule: lexCompare.induct)
  case 1
  then show ?case by simp
next
  case (2 y ys)
  then show ?case by (cases c) simp_all
next
  case (3 x xs)
  then show ?case by simp
next
  case (4 x xs y ys)
  show ?case
  proof (cases c)
    case Nil
    with "4.prems" show ?thesis by simp
  next
    case (Cons z zs)
    from "4.prems" have xy: "x < y \<or> (x = y \<and> lexCompare xs ys \<le> 0)"
      and yz: "y < z \<or> (y = z \<and> lexCompare ys zs \<le> 0)"
      unfolding Cons lexCompare_Cons_le by simp_all
    have "x < z \<or> (x = z \<and> lexCompare xs zs \<le> 0)"
    proof (cases "x = y \<and> y = z")
      case True
      with xy yz have "lexCompare xs ys \<le> 0" "lexCompare ys zs \<le> 0"
        by simp_all
      with True "4.IH" [of zs] show ?thesis
        by simp
    next
      case False
      with xy yz show ?thesis
        by auto
    qed
    then show ?thesis
      unfolding Cons lexCompare_Cons_le .
  qed
qed

lemma codeUnitCompare_totalPreorder: "totalPreorder codeUnitCompare"
  unfolding totalPreorder_def codeUnitCompare_def
  using lexCompare_total lexCompare_trans by blast


text \<open>
  C6, as the code has it. For a \<^verbatim>\<open>localeCompare\<close> that is a total preorder,
  sortPlayersByStats returns the entries it was given, ordered so that of any two the one
  with higher totalPoints comes first, on equal totalPoints the one with higher
  fechasWonCount, then the one with higher perfectScoresCount, and on a full tie of the
  three the display names are in ascending order. The display name of a user is the
  userId when no prediction carries that userId. Otherwise it is the playerName of one of
  the user's predictions, or the userId when that playerName is empty or missing: of the
  user's first prediction in the array when the time of that prediction is NaN (an
  invalid date), and else of a prediction with a valid time that no valid time of the
  user's predictions exceeds. A user with 20 points, 3 weeks won and 0 perfect scores
  ranks above one with 20 points, 2 weeks won and 1 perfect score.
\<close>

theorem sortPlayersByStats_order:
  assumes "totalPreorder localeCompare"
  shows "sorted_wrt (ranksBefore localeCompare preds) (sortPlayersByStats localeCompare stats preds)
    \<and> mset (sortPlayersByStats localeCompare stats preds) = mset stats
    \<and> (filter (\<lambda>p. userId p = Some uid) preds = [] \<longrightarrow> getLatestPlayerName preds uid = uid)
    \<and> (filter (\<lambda>p. userId p = Some uid) preds \<noteq> [] \<longrightarrow>
         predTime (hd (filter (\<lambda>p. userId p = Some uid) preds)) = None \<longrightarrow>
         getLatestPlayerName preds uid
           = orStr (playerName (hd (filter (\<lambda>p. userId p = Some uid) preds))) uid)
    \<and> (filter (\<lambda>p. userId p = Some uid) preds \<noteq> [] \<longrightarrow>
         predTime (hd (filter (\<lambda>p. userId p = Some uid) preds)) \<noteq> None \<longrightarrow>
         (\<exists>p \<in> set preds. \<exists>t. userId p = Some uid \<and> predTime p = Some t
            \<and> (\<forall>q \<in> set preds. \<forall>s. userId q = Some uid \<longrightarrow> predTime q = Some s \<longrightarrow> s \<le> t)
            \<and> getLatestPlayerName preds uid = orStr (playerName p) uid))
    \<and> sortPlayersByStats localeCompare
          [(x, \<lparr>totalPoints = 20, fechasWonCount = 2, perfectScoresCount = 1, gamesParticipated = gx\<rparr>),
           (y, \<lparr>totalPoints = 20, fechasWonCount = 3, perfectScoresCount = 0, gamesParticipated = gy\<rparr>)]
          preds
        = [(y, \<lparr>totalPoints = 20, fechasWonCount = 3, perfectScoresCount = 0, gamesParticipated = gy\<rparr>),
           (x, \<lparr>totalPoints = 20, fechasWonCount = 2, perfectScoresCount = 1, gamesParticipated = gx\<rparr>)]"
proof (intro conjI)
  show "sorted_wrt (ranksBefore localeCompare preds) (sortPlayersByStats localeCompare stats preds)"
    using assms by (rule sorted_sortPlayersByStats)
  show "mset (sortPlayersByStats localeCompare stats preds) = mset stats"
    by (simp add: sortPlayersByStats_def mset_sortBy)
  show "filter (\<lambda>p. userId p = Some uid) preds = [] \<longrightarrow> getLatestPlayerName preds uid = uid"
    by (simp add: getLatestPlayerName_none)
  show "filter (\<lambda>p. userId p = Some uid) preds \<noteq> [] \<longrightarrow>
         predTime (hd (filter (\<lambda>p. userId p = Some uid) preds)) = None \<longrightarrow>
         getLatestPlayerName preds uid
           = orStr (playerName (hd (filter (\<lambda>p. userId p = Some uid) preds))) uid"
    using getLatestPlayerName_invalid [of uid preds] by blast
  show "filter (\<lambda>p. userId p = Some uid) preds \<noteq> [] \<longrightarrow>
         predTime (hd (filter (\<lambda>p. userId p = Some uid) preds)) \<noteq> None \<longrightarrow>
         (\<exists>p \<in> set preds. \<exists>t. userId p = Some uid \<and> predTime p = Some t
            \<and> (\<forall>q \<in> set preds. \<forall>s. userId q = Some uid \<longrightarrow> predTime q = Some s \<longrightarrow> s \<le> t)
            \<and> getLatestPlayerName preds uid = orStr (playerName p) uid)"
    using getLatestPlayerName_latest [of uid preds] by blast
  show "sortPlayersByStats localeCompare
          [(x, \<lparr>totalPoints = 20, fechasWonCount = 2, perfectScoresCount = 1, gamesParticipated = gx\<rparr>),
           (y, \<lparr>totalPoints = 20, fechasWonCount = 3, perfectScoresCount = 0, gamesParticipated = gy\<rparr>)]
          preds
        = [(y, \<lparr>totalPoints = 20, fechasWonCount = 3, perfectScoresCount = 0, gamesParticipated = gy\<rparr>),
           (x, \<lparr>totalPoints = 20, fechasWonCount = 2, perfectScoresCount = 1, gamesParticipated = gx\<rparr>)]"
    by (simp add: sortPlayersByStats_def sortBy_def compareStats_def)
qed

text \<open>
  On \<open>timedPreds\<close>: \<open>m\<close> and \<open>abe\<close> are tied on the three counters. The name of \<open>m\<close> is
  \<open>carl\<close>, of the prediction at time 300; the name of \<open>abe\<close> is \<open>dan\<close>, of the first
  prediction, whose date is invalid, and not \<open>bob\<close> of the prediction at time 500. So \<open>m\<close>
  ranks before \<open>abe\<close>. \<open>zed\<close> and \<open>top\<close> have no predictions.
\<close>

theorem sortPlayersByStats_order_witness:
  "totalPreorder codeUnitCompare
   \<and> sortPlayersByStats codeUnitCompare rankedEntries timedPreds
       = [rankedEntries ! 3, rankedEntries ! 1, rankedEntries ! 0, rankedEntries ! 2]
   \<and> sorted_wrt (ranksBefore codeUnitCompare timedPreds)
        [rankedEntries ! 3, rankedEntries ! 1, rankedEntries ! 0, rankedEntries ! 2]
   \<and> mset [rankedEntries ! 3, rankedEntries ! 1, rankedEntries ! 0, rankedEntries ! 2]
       = mset rankedEntries
   \<and> getLatestPlayerName timedPreds ''top'' = ''top''
   \<and> predTime (hd (filter (\<lambda>p. userId p = Some ''abe'') timedPreds)) = None
   \<and> getLatestPlayerName timedPreds ''abe'' = ''dan''
   \<and> predTime (hd (filter (\<lambda>p. userId p = Some ''m'') timedPreds)) = Some 100
   \<and> getLatestPlayerName timedPreds ''m'' = ''carl''
   \<and> (\<exists>p \<in> set timedPreds. \<exists>t. userId p = Some ''m'' \<and> predTime p = Some t
          \<and> (\<forall>q \<in> set timedPreds. \<forall>s. userId q = Some ''m'' \<longrightarrow> predTime q = Some s \<longrightarrow> s \<le> t)
          \<and> getLatestPlayerName timedPreds ''m'' = orStr (playerName p) ''m'')"
proof -
  have e: "sortPlayersByStats codeUnitCompare rankedEntries timedPreds
       = [rankedEntries ! 3, rankedEntries ! 1, rankedEntries ! 0, rankedEntries ! 2]"
    by code_simp
  have none: "filter (\<lambda>p. userId p = Some ''top'') timedPreds = []"
    by code_simp
  have abe: "filter (\<lambda>p. userId p = Some ''abe'') timedPreds \<noteq> []"
    "predTime (hd (filter (\<lambda>p. userId p = Some ''abe'') timedPreds)) = None"
    "orStr (playerName (hd (filter (\<lambda>p. userId p = Some ''abe'') timedPreds))) ''abe'' = ''dan''"
    by code_simp+
  have m: "filter (\<lambda>p. userId p = Some ''m'') timedPreds \<noteq> []"
    "predTime (hd (filter (\<lambda>p. userId p = Some ''m'') timedPreds)) = Some 100"
    "getLatestPlayerName timedPreds ''m'' = ''carl''"
    by code_simp+
  note t1 = sortPlayersByStats_order [OF codeUnitCompare_totalPreorder, of timedPreds rankedEntries "''top''"]
  note t2 = sortPlayersByStats_order [OF codeUnitCompare_totalPreorder, of timedPreds rankedEntries "''abe''"]
  note t3 = sortPlayersByStats_order [OF codeUnitCompare_totalPreorder, of timedPreds rankedEntries "''m''"]
  from t1 e have "sorted_wrt (ranksBefore codeUnitCompare timedPreds)
        [rankedEntries ! 3, rankedEntries ! 1, rankedEntries ! 0, rankedEntries ! 2]"
    and "mset [rankedEntries ! 3, rankedEntries ! 1, rankedEntries ! 0, rankedEntries ! 2]
       = mset rankedEntries"
    by simp_all
  moreover from t1 none have "getLatestPlayerName timedPreds ''top'' = ''top''"
    by blast
  moreover from t2 abe have "getLatestPlayerName timedPreds ''abe'' = ''dan''"
    by simp
  moreover from t3 m(1,2) have "\<exists>p \<in> set timedPreds. \<exists>t. userId p = Some ''m'' \<and> predTime p = Some t
          \<and> (\<forall>q \<in> set timedPreds. \<forall>s. userId q = Some ''m'' \<longrightarrow> predTime q = Some s \<longrightarrow> s \<le> t)
          \<and> getLatestPlayerName timedPreds ''m'' = orStr (playerName p) ''m''"
    by simp
  ultimately show ?thesis
    using e abe(2) m(2,3) codeUnitCompare_totalPreorder by simp
qed

text \<open>
  C6 as stated fails in two ways. When the most recent playerName is empty: \<open>zed\<close>'s only
  prediction has the playerName \<open>''\<close>, which sorts before \<open>m\<close>, yet \<open>m\<close> is ranked first,
  because the empty name is replaced by the userId \<open>zed\<close>. And when the first prediction
  of a user carries an invalid date: \<open>u\<close> keeps the name \<open>first\<close> of that prediction, not
  the name \<open>later\<close> of the prediction at time 500, and with it ranks before \<open>v\<close>, whose name
  is \<open>g\<close>; the same happens when the first timestamp is beyond the range of a date.
\<close>

theorem sortPlayersByStats_display_name:
  "sortPlayersByStats codeUnitCompare [(''zed'', zeroStats), (''m'', zeroStats)]
      [namedPrediction ''zed'' [], namedPrediction ''m'' ''m'']
     = [(''m'', zeroStats), (''zed'', zeroStats)]
   \<and> filter (\<lambda>p. userId p = Some ''zed'') [namedPrediction ''zed'' [], namedPrediction ''m'' ''m'']
       = [namedPrediction ''zed'' []]
   \<and> playerName (namedPrediction ''zed'' []) = Some []
   \<and> filter (\<lambda>p. userId p = Some ''m'') [namedPrediction ''zed'' [], namedPrediction ''m'' ''m'']
       = [namedPrediction ''m'' ''m'']
   \<and> playerName (namedPrediction ''m'' ''m'') = Some ''m''
   \<and> codeUnitCompare [] ''m'' < 0
   \<and> codeUnitCompare ''m'' [] > 0
   \<and> getLatestPlayerName
        [timedPrediction ''u'' ''first'' InvalidDate, timedPrediction ''u'' ''later'' (Millis 500)] ''u''
       = ''first''
   \<and> getLatestPlayerName
        [timedPrediction ''u'' ''first'' (Millis 8640000000000001),
         timedPrediction ''u'' ''later'' (Millis 500)] ''u''
       = ''first''
   \<and> sortPlayersByStats codeUnitCompare [(''v'', zeroStats), (''u'', zeroStats)]
        [timedPrediction ''u'' ''first'' InvalidDate, timedPrediction ''u'' ''later'' (Millis 500),
         timedPrediction ''v'' ''g'' (Millis 1)]
       = [(''u'', zeroStats), (''v'', zeroStats)]
   \<and> codeUnitCompare ''first'' ''g'' < 0
   \<and> codeUnitCompare ''later'' ''g'' > 0"
  by code_simp

section \<open>Permuting the inputs\<close>

lemma buildGameMap_fold:
  "foldl (\<lambda>gameMap game. gameMap(game_id game \<mapsto> game)) m gs =
     m ++ map_of (rev (map (\<lambda>g. (game_id g, g)) gs))"
  by (induction gs arbitrary: m) simp_all

lemma buildGameMap_perm:
  assumes "mset gs' = mset gs" and "distinct (map game_id gs)"
  shows "buildGameMap gs' = buildGameMap gs"
proof -
  let ?al = "\<lambda>gs. rev (map (\<lambda>g. (game_id g, g)) gs)"
  have fst: "map fst (?al xs) = rev (map game_id xs)" for xs :: "game list"
    by (induction xs) simp_all
  have "mset (map game_id gs') = mset (map game_id gs)"
    using assms(1) by simp
  then have "distinct (map game_id gs')"
    using assms(2) mset_eq_imp_distinct_iff by blast
  with assms(2) have d: "distinct (map fst (?al gs'))" "distinct (map fst (?al gs))"
    by (simp_all only: fst distinct_rev)
  have "set gs' = set gs"
    using assms(1) by (rule mset_eq_setD)
  then have "set (?al gs') = set (?al gs)"
    by simp
  with d have "map_of (?al gs') = map_of (?al gs)"
    by (simp only: map_of_inject_set)
  then show ?thesis
    by (simp only: buildGameMap_def buildGameMap_fold)
qed

section \<open>The week totals for any userId\<close>

lemma inherited_proto: "inherited ''__proto__''"
  by (simp add: inherited_def objectPrototypeNames_def)

lemma weekStep_lookup_any:
  "map_of (weekStep u x players) u' =
     (if u' = u then bumpFor u x (map_of players u) else map_of players u')"
  by (auto simp add: weekStep_def addToEntry_def falsyEntry_def bumpFor_def AList.update_conv'
      inherited_proto split: option.splits weekValue.splits)

lemma addFechaScore_fview_any:
  assumes "\<not> inherited w"
  shows "fview (addFechaScore w u x F) w' u' =
     (if w' = w \<and> u' = u then bumpFor u x (fview F w u) else fview F w' u')"
  using assms
  by (auto simp add: addFechaScore_eq fview_def AList.map_of_map_entry AList.update_conv'
      weekStep_lookup_any split: option.splits)

lemma addFechaScore_keys_any:
  assumes "\<not> inherited w"
  shows "fst ` set (addFechaScore w u x F) = insert w (fst ` set F)"
  using assms
  by (auto simp add: addFechaScore_eq AList.dom_map_entry AList.dom_update map_of_eq_None_iff)

lemma scoring_snd_any:
  assumes "\<forall>p \<in> set ps. \<forall>w. weekOf gm p = Some w \<longrightarrow> \<not> inherited w"
  shows "fview (snd (foldl (processPrediction gm) st ps)) w u =
     accumFor u (fview (snd st) w u) (weekPoints gm ps w u)"
  using assms
proof (induction ps arbitrary: st)
  case Nil
  then show ?case by (simp add: weekPoints_def)
next
  case (Cons p ps)
  have w: "\<And>w. weekOf gm p = Some w \<Longrightarrow> \<not> inherited w"
    using Cons.prems by simp
  from Cons.prems have rest: "\<forall>p \<in> set ps. \<forall>w. weekOf gm p = Some w \<longrightarrow> \<not> inherited w"
    by simp
  have "fview (snd (foldl (processPrediction gm) (processPrediction gm st p) ps)) w u =
     accumFor u (fview (snd (processPrediction gm st p)) w u) (weekPoints gm ps w u)"
    by (rule Cons.IH [OF rest])
  then show ?case
    using w
    by (auto simp add: processPrediction_snd weekPoints_Cons addFechaScore_fview_any
        split: option.splits)
qed

lemma scoring_week_keys_any:
  assumes "\<forall>p \<in> set ps. \<forall>w. weekOf gm p = Some w \<longrightarrow> \<not> inherited w"
  shows "fst ` set (snd (foldl (processPrediction gm) st ps)) =
     fst ` set (snd st) \<union> {w. \<exists>p \<in> set ps. pointsOf gm p \<noteq> None \<and> weekOf gm p = Some w}"
  using assms
proof (induction ps arbitrary: st)
  case Nil
  then show ?case by simp
next
  case (Cons p ps)
  have w: "\<And>w. weekOf gm p = Some w \<Longrightarrow> \<not> inherited w"
    using Cons.prems by simp
  from Cons.prems have rest: "\<forall>p \<in> set ps. \<forall>w. weekOf gm p = Some w \<longrightarrow> \<not> inherited w"
    by simp
  have step: "fst ` set (snd (processPrediction gm st p)) =
      fst ` set (snd st) \<union> {w. pointsOf gm p \<noteq> None \<and> weekOf gm p = Some w}"
    using w by (auto simp add: processPrediction_snd addFechaScore_keys_any split: option.splits)
  have "fst ` set (snd (foldl (processPrediction gm) (processPrediction gm st p) ps)) =
     fst ` set (snd (processPrediction gm st p))
       \<union> {w. \<exists>p \<in> set ps. pointsOf gm p \<noteq> None \<and> weekOf gm p = Some w}"
    by (rule Cons.IH [OF rest])
  then show ?case
    unfolding step by auto
qed

lemma accumFor_Text: "accumFor u (Some Text) xs = Some Text"
  by (induction xs) (simp_all add: bumpFor_def)

lemma accumFor_Number: "accumFor u (Some (Number y)) xs = Some (Number (y + sum_list xs))"
  by (induction xs arbitrary: y) (simp_all add: bumpFor_def)

lemma accumFor_proto: "accumFor ''__proto__'' None xs = None"
  by (induction xs) (simp_all add: bumpFor_def inherited_proto)

lemma accumFor_None:
  "accumFor u None xs =
     (if xs = [] then None
      else if inherited u then (if u = ''__proto__'' then None else Some Text)
      else Some (Number (sum_list xs)))"
proof (cases xs)
  case Nil
  then show ?thesis by simp
next
  case (Cons x xs')
  then show ?thesis
    by (simp add: bumpFor_def accumFor_Text accumFor_Number accumFor_proto)
qed

lemma accumFor_mset:
  assumes "mset xs = mset ys"
  shows "accumFor u None xs = accumFor u None ys"
proof -
  have "xs = [] \<longleftrightarrow> ys = []"
    using assms by (metis mset_zero_iff)
  moreover have "sum_list xs = sum_list ys"
    using assms by (metis sum_mset_sum_list)
  ultimately show ?thesis
    by (simp add: accumFor_None)
qed

lemma weekOf_plain:
  assumes "plainWeeks gs" and "weekOf (buildGameMap gs) p = Some w"
  shows "\<not> inherited w"
proof -
  from assms(2) obtain g where "buildGameMap gs (gameId p) = Some g" "fechaOfGame g = Some w"
    by (auto simp add: weekOf_def split: option.splits)
  then have "g \<in> set gs" "fechaOfGame g = Some w"
    by (simp_all add: buildGameMap_range)
  with assms(1) show ?thesis
    by (force simp add: plainWeeks_def)
qed

lemma fechaScores_view_any:
  assumes "plainWeeks gs"
  shows "fview (fechaScoresOf (buildGameMap gs) ps) w u =
           accumFor u None (weekPoints (buildGameMap gs) ps w u)"
proof -
  have "\<forall>p \<in> set ps. \<forall>w. weekOf (buildGameMap gs) p = Some w \<longrightarrow> \<not> inherited w"
    using weekOf_plain [OF assms] by blast
  from scoring_snd_any [OF this, of "(foldl initPlayer [] ps, [])" w u] show ?thesis
    by (simp add: fechaScoresOf_def fview_def)
qed

lemma fechaScores_keys_any:
  assumes "plainWeeks gs"
  shows "fst ` set (fechaScoresOf (buildGameMap gs) ps) =
           {w. \<exists>p \<in> set ps. pointsOf (buildGameMap gs) p \<noteq> None \<and> weekOf (buildGameMap gs) p = Some w}"
proof -
  have "\<forall>p \<in> set ps. \<forall>w. weekOf (buildGameMap gs) p = Some w \<longrightarrow> \<not> inherited w"
    using weekOf_plain [OF assms] by blast
  from scoring_week_keys_any [OF this, of "(foldl initPlayer [] ps, [])"] show ?thesis
    by (simp add: fechaScoresOf_def)
qed

lemma mathMax_set:
  assumes "set xs = set ys"
  shows "mathMax xs = mathMax ys"
proof -
  have "set (List.map_filter numberOf xs) = set (List.map_filter numberOf ys)"
    using assms by (auto simp add: List.map_filter_def)
  with assms show ?thesis
    by (simp add: mathMax_def)
qed

lemma winsEntry_cong:
  assumes "distinct (map fst ps1)" and "distinct (map fst ps2)" and "map_of ps1 = map_of ps2"
  shows "winsEntry u (w1, ps1) = winsEntry u (w2, ps2)"
proof -
  have "set ps1 = set ps2"
    using assms by (simp add: map_of_inject_set)
  then have "set (map snd ps1) = set (map snd ps2)"
    by simp
  then have "mathMax (map snd ps1) = mathMax (map snd ps2)"
    by (rule mathMax_set)
  with assms(3) show ?thesis
    by (simp add: winsEntry_def)
qed

lemma wins_count_perm:
  assumes d: "fechaDistinct F" and d': "fechaDistinct F'"
    and keys: "fst ` set F' = fst ` set F"
    and view: "\<And>w v. fview F' w v = fview F w v"
  shows "length (filter (winsEntry u) F') = length (filter (winsEntry u) F)"
proof -
  let ?R = "\<lambda>F w. case map_of F w of None \<Rightarrow> False | Some players \<Rightarrow> winsEntry u (w, players)"
  have by_key: "length (filter (winsEntry u) G) = length (filter (?R G) (map fst G))"
    if "fechaDistinct G" for G :: fechaDict
  proof -
    from that have dist: "distinct (map fst G)"
      by (simp add: fechaDistinct_def)
    have "winsEntry u e = ?R G (fst e)" if "e \<in> set G" for e
    proof -
      have "map_of G (fst e) = Some (snd e)"
        using map_of_is_SomeI [OF dist, of "fst e" "snd e"] that by simp
      then show ?thesis
        by simp
    qed
    then have "filter (winsEntry u) G = filter (\<lambda>e. ?R G (fst e)) G"
      by (intro filter_cong) simp_all
    then have "length (filter (winsEntry u) G) = length (map fst (filter (\<lambda>e. ?R G (fst e)) G))"
      by simp
    also have "map fst (filter (\<lambda>e. ?R G (fst e)) G) = filter (?R G) (map fst G)"
      by (simp add: filter_map comp_def)
    finally show ?thesis .
  qed
  have same: "?R F' w = ?R F w" for w
  proof (cases "map_of F w")
    case None
    then have "w \<notin> fst ` set F"
      by (simp add: map_of_eq_None_iff)
    with keys have "map_of F' w = None"
      by (simp add: map_of_eq_None_iff)
    with None show ?thesis
      by simp
  next
    case (Some players)
    then have "w \<in> fst ` set F"
      by (metis map_of_eq_None_iff option.distinct(1))
    with keys have "map_of F' w \<noteq> None"
      by (simp add: map_of_eq_None_iff)
    then obtain players' where Some': "map_of F' w = Some players'"
      by auto
    have "map_of players' v = map_of players v" for v
      using view [of w v] Some Some' by (simp add: fview_def)
    then have "map_of players' = map_of players"
      by (rule ext)
    moreover have "distinct (map fst players)" "distinct (map fst players')"
      using d d' Some Some' by (auto simp add: fechaDistinct_def simp del: map_of_eq_Some_iff)
    ultimately have "winsEntry u (w, players') = winsEntry u (w, players)"
      by (intro winsEntry_cong) simp_all
    with Some Some' show ?thesis
      by simp
  qed
  have "length (filter (?R F') (map fst F')) = length (filter (?R F') (map fst F))"
    using d d' keys by (intro distinct_filter_length) (simp_all add: fechaDistinct_def)
  also have "\<dots> = length (filter (?R F) (map fst F))"
    using same by (simp cong: filter_cong)
  finally show ?thesis
    by (simp add: by_key [OF d] by_key [OF d'])
qed

lemma addAll_mset:
  assumes "mset xs = mset ys"
  shows "addAll xs s = addAll ys s"
proof -
  have "sum_list xs = sum_list ys"
    using assms by (metis sum_mset_sum_list)
  moreover have "length xs = length ys"
    using assms by (metis size_mset)
  moreover have "mset (filter (\<lambda>x. x = 10) xs) = mset (filter (\<lambda>x. x = 10) ys)"
    using assms by simp
  then have "length (filter (\<lambda>x. x = 10) xs) = length (filter (\<lambda>x. x = 10) ys)"
    by (metis size_mset)
  ultimately show ?thesis
    by (simp add: addAll_def)
qed

lemma calculatePlayerStats_perm:
  assumes "mset ps' = mset ps" and "mset gs' = mset gs" and "distinct (map game_id gs)"
    and "plainWeeks gs"
  shows "map_of (calculatePlayerStats gs' ps') = map_of (calculatePlayerStats gs ps)"
proof
  fix u
  let ?gm = "buildGameMap gs"
  have sets: "set ps' = set ps"
    using assms(1) by (rule mset_eq_setD)
  have gm: "buildGameMap gs' = ?gm"
    using assms(2,3) by (rule buildGameMap_perm)
  have "mset (userPoints ?gm ps' u) = mset (userPoints ?gm ps u)"
    by (simp add: userPoints_def List.map_filter_def assms(1))
  then have points: "addAll (userPoints ?gm ps' u) zeroStats = addAll (userPoints ?gm ps u) zeroStats"
    by (rule addAll_mset)
  have "mset (weekPoints ?gm ps' w v) = mset (weekPoints ?gm ps w v)" for w v
    by (simp add: weekPoints_def List.map_filter_def assms(1))
  then have "accumFor v None (weekPoints ?gm ps' w v) = accumFor v None (weekPoints ?gm ps w v)" for w v
    by (rule accumFor_mset)
  then have view: "fview (fechaScoresOf ?gm ps') w v = fview (fechaScoresOf ?gm ps) w v" for w v
    by (simp only: fechaScores_view_any [OF assms(4)])
  have keys: "fst ` set (fechaScoresOf ?gm ps') = fst ` set (fechaScoresOf ?gm ps)"
    by (simp add: fechaScores_keys_any [OF assms(4)] sets)
  have "length (filter (winsEntry u) (fechaScoresOf ?gm ps'))
      = length (filter (winsEntry u) (fechaScoresOf ?gm ps))"
    using fechaScores_distinct fechaScores_distinct keys view by (rule wins_count_perm)
  then show "map_of (calculatePlayerStats gs' ps') u = map_of (calculatePlayerStats gs ps) u"
    by (simp add: calculatePlayerStats_raw gm points sets)
qed

lemma calculatePlayerStats_perm_mset:
  assumes "mset ps' = mset ps" and "mset gs' = mset gs" and "distinct (map game_id gs)"
    and "plainWeeks gs"
  shows "mset (calculatePlayerStats gs' ps') = mset (calculatePlayerStats gs ps)"
proof -
  have "set (calculatePlayerStats gs' ps') = set (calculatePlayerStats gs ps)"
    using calculatePlayerStats_perm [OF assms]
    by (simp add: map_of_inject_set calculatePlayerStats_distinct)
  moreover have "distinct (calculatePlayerStats gs ps)" for gs and ps :: "'a prediction_scheme list"
    using calculatePlayerStats_distinct [of gs ps] by (rule distinct_map [THEN iffD1, THEN conjunct1])
  ultimately show ?thesis
    by (simp add: set_eq_iff_mset_eq_distinct [symmetric])
qed

lemma ranksBefore_key:
  "ranksBefore lc ps a b \<Longrightarrow> negTriple (statTriple a) \<le> negTriple (statTriple b)"
  by (auto simp add: ranksBefore_def negTriple_def statTriple_def less_eq_prod_def)

lemma negTriple_involution: "negTriple (negTriple t) = t"
  by (simp add: negTriple_def)

lemma ranking_keys:
  assumes "sorted_wrt (ranksBefore lc ps) xs" and "sorted_wrt (ranksBefore lc' ps') ys"
    and "mset xs = mset ys"
  shows "map statTriple xs = map statTriple ys"
proof -
  let ?k = "\<lambda>e. negTriple (statTriple e)"
  have "sorted (map ?k xs)"
    unfolding sorted_map using assms(1) by (rule sorted_wrt_mono_rel [rotated]) (rule ranksBefore_key)
  moreover have "sorted (map ?k ys)"
    unfolding sorted_map using assms(2) by (rule sorted_wrt_mono_rel [rotated]) (rule ranksBefore_key)
  moreover have "mset (map ?k xs) = mset (map ?k ys)"
    using assms(3) by simp
  ultimately have "map ?k xs = map ?k ys"
    by (metis properties_for_sort)
  then have "map negTriple (map ?k xs) = map negTriple (map ?k ys)"
    by simp
  then show ?thesis
    by (simp add: negTriple_involution comp_def)
qed


text \<open>A sorted arrangement is unique when no two different elements rank before each other.\<close>

lemma sorted_wrt_unique:
  assumes "sorted_wrt R xs" and "sorted_wrt R ys" and "mset xs = mset ys"
    and "\<And>a b. a \<in> set xs \<Longrightarrow> b \<in> set xs \<Longrightarrow> R a b \<Longrightarrow> R b a \<Longrightarrow> a = b"
  shows "xs = ys"
  using assms
proof (induction xs arbitrary: ys)
  case Nil
  then show ?case by simp
next
  case (Cons x xs)
  from Cons.prems(3) have "ys \<noteq> []"
    by auto
  then obtain y ys' where ys: "ys = y # ys'"
    by (cases ys) auto
  have sets: "set (x # xs) = set (y # ys')"
    using Cons.prems(3) unfolding ys by (rule mset_eq_setD)
  have "x = y"
  proof (rule ccontr)
    assume ne: "x \<noteq> y"
    with sets have "x \<in> set ys'" and "y \<in> set xs"
      by auto
    with Cons.prems(1,2) have "R y x" "R x y"
      unfolding ys by auto
    with Cons.prems(4) [of x y] sets have "x = y"
      by auto
    with ne show False ..
  qed
  moreover from this Cons.prems(3) have "mset xs = mset ys'"
    unfolding ys by simp
  with Cons.prems(1,2,4) have "xs = ys'"
    unfolding ys by (intro Cons.IH) auto
  ultimately show ?case
    unfolding ys by simp
qed

text \<open>
  A sufficient condition on the input for the display name of a user to be the same
  after a permutation: the user's predictions all have a valid time, and those with the
  same time give the same name.
\<close>

lemma getLatestPlayerName_perm:
  assumes "mset ps' = mset ps"
    and valid: "\<And>p. p \<in> set ps \<Longrightarrow> userId p = Some u \<Longrightarrow> predTime p \<noteq> None"
    and same: "\<And>p q. p \<in> set ps \<Longrightarrow> q \<in> set ps \<Longrightarrow> userId p = Some u \<Longrightarrow> userId q = Some u
                \<Longrightarrow> predTime p = predTime q \<Longrightarrow> orStr (playerName p) u = orStr (playerName q) u"
  shows "getLatestPlayerName ps' u = getLatestPlayerName ps u"
proof -
  let ?f = "\<lambda>ps. filter (\<lambda>p. userId p = Some u) ps"
  have sets: "set ps' = set ps"
    using assms(1) by (rule mset_eq_setD)
  show ?thesis
  proof (cases "?f ps = []")
    case True
    with sets have "?f ps' = []"
      by (simp add: filter_empty_conv)
    with True show ?thesis
      by (simp add: getLatestPlayerName_none)
  next
    case False
    with sets have ne: "?f ps' \<noteq> []"
      by (simp add: filter_empty_conv)
    have "hd (?f ps) \<in> set (?f ps)" "hd (?f ps') \<in> set (?f ps')"
      using hd_in_set [OF False] hd_in_set [OF ne] by blast+
    with sets valid have "predTime (hd (?f ps)) \<noteq> None" "predTime (hd (?f ps')) \<noteq> None"
      by auto
    from getLatestPlayerName_latest [OF False this(1)] getLatestPlayerName_latest [OF ne this(2)]
    obtain p t p' t' where p: "p \<in> set ps" "userId p = Some u" "predTime p = Some t"
      and pmax: "\<And>q s. q \<in> set ps \<Longrightarrow> userId q = Some u \<Longrightarrow> predTime q = Some s \<Longrightarrow> s \<le> t"
      and pname: "getLatestPlayerName ps u = orStr (playerName p) u"
      and p': "p' \<in> set ps'" "userId p' = Some u" "predTime p' = Some t'"
      and pmax': "\<And>q s. q \<in> set ps' \<Longrightarrow> userId q = Some u \<Longrightarrow> predTime q = Some s \<Longrightarrow> s \<le> t'"
      and pname': "getLatestPlayerName ps' u = orStr (playerName p') u"
      by blast
    from pmax [of p' t'] pmax' [of p t] p p' sets have "t = t'"
      by auto
    with same [of p p'] p p' sets have "orStr (playerName p) u = orStr (playerName p') u"
      by auto
    with pname pname' show ?thesis
      by simp
  qed
qed

text \<open>
  C8, as the code has it. For games with pairwise distinct ids, and when no week label is
  the name of a property of \<^verbatim>\<open>Object.prototype\<close>, permuting the predictions and the games
  leaves the userId-to-statistics mapping unchanged, and the ranking keeps
  the same entries and the same sequence of (totalPoints, fechasWonCount,
  perfectScoresCount). The ranking itself is unchanged when, in addition, the permutation
  leaves the display name of every user unchanged and no two different entries rank
  before each other, that is, no two users tied on the three counters have display names
  that compare as equal.
\<close>

theorem permutation_invariance:
  assumes "mset preds' = mset preds" and "mset games' = mset games"
    and "distinct (map game_id games)" and "plainWeeks games"
    and "totalPreorder localeCompare"
  shows "map_of (calculatePlayerStats games' preds') = map_of (calculatePlayerStats games preds)
    \<and> mset (sortPlayersByStats localeCompare (calculatePlayerStats games' preds') preds')
        = mset (sortPlayersByStats localeCompare (calculatePlayerStats games preds) preds)
    \<and> map statTriple (sortPlayersByStats localeCompare (calculatePlayerStats games' preds') preds')
        = map statTriple (sortPlayersByStats localeCompare (calculatePlayerStats games preds) preds)
    \<and> ((\<forall>p \<in> set preds. getLatestPlayerName preds' (userIdOf p) = getLatestPlayerName preds (userIdOf p))
        \<longrightarrow> (\<forall>a \<in> set (calculatePlayerStats games preds). \<forall>b \<in> set (calculatePlayerStats games preds).
               ranksBefore localeCompare preds a b \<longrightarrow> ranksBefore localeCompare preds b a \<longrightarrow> a = b)
        \<longrightarrow> sortPlayersByStats localeCompare (calculatePlayerStats games' preds') preds'
            = sortPlayersByStats localeCompare (calculatePlayerStats games preds) preds)"
proof -
  let ?S = "calculatePlayerStats games preds"
  let ?R = "sortPlayersByStats localeCompare ?S preds"
  let ?R' = "sortPlayersByStats localeCompare (calculatePlayerStats games' preds') preds'"
  have m: "mset ?R' = mset ?R"
    by (simp add: sortPlayersByStats_def mset_sortBy calculatePlayerStats_perm_mset [OF assms(1-4)])
  have s': "sorted_wrt (ranksBefore localeCompare preds') ?R'"
    and s: "sorted_wrt (ranksBefore localeCompare preds) ?R"
    using assms(5) by (simp_all add: sorted_sortPlayersByStats)
  then have k: "map statTriple ?R' = map statTriple ?R"
    using m by (rule ranking_keys)
  have "?R' = ?R"
    if names: "\<forall>p \<in> set preds. getLatestPlayerName preds' (userIdOf p) = getLatestPlayerName preds (userIdOf p)"
      and ties: "\<forall>a \<in> set ?S. \<forall>b \<in> set ?S.
               ranksBefore localeCompare preds a b \<longrightarrow> ranksBefore localeCompare preds b a \<longrightarrow> a = b"
  proof -
    have setR: "set ?R = set ?S"
      using mset_eq_setD [of ?R ?S] by (simp add: sortPlayersByStats_def mset_sortBy)
    have setR': "set ?R' = set ?S"
      using mset_eq_setD [OF m] setR by simp
    have name: "getLatestPlayerName preds' (fst a) = getLatestPlayerName preds (fst a)" if "a \<in> set ?S" for a
    proof -
      from that have "fst a \<in> fst ` set ?S"
        by (rule imageI)
      then have "fst a \<in> userIdOf ` set preds"
        by (simp add: calculatePlayerStats_dom)
      with names show ?thesis
        by auto
    qed
    have "sorted_wrt (ranksBefore localeCompare preds) ?R'"
      using s'
    proof (rule sorted_wrt_mono_rel [rotated])
      fix a b assume "a \<in> set ?R'" "b \<in> set ?R'" "ranksBefore localeCompare preds' a b"
      then show "ranksBefore localeCompare preds a b"
        using name [of a] name [of b] by (simp add: setR' ranksBefore_def)
    qed
    then show ?thesis
      using s m
    proof (rule sorted_wrt_unique)
      fix a b assume "a \<in> set ?R'" "b \<in> set ?R'"
        and "ranksBefore localeCompare preds a b" "ranksBefore localeCompare preds b a"
      with ties show "a = b"
        by (simp add: setR')
    qed
  qed
  with m k calculatePlayerStats_perm [OF assms(1-4)] show ?thesis
    by simp
qed

text \<open>
  On \<open>stampedPreds\<close> reversed, with the games reversed: \<open>A\<close> and \<open>B\<close> are tied on the three
  counters, and \<open>B\<close>, whose latest name is \<open>bea\<close>, ranks before \<open>A\<close>, whose latest name is
  \<open>zoe\<close>, in both rankings.
\<close>

theorem permutation_invariance_witness:
  "mset (rev stampedPreds) = mset stampedPreds
   \<and> mset (rev tieGames) = mset tieGames
   \<and> distinct (map game_id tieGames)
   \<and> plainWeeks tieGames
   \<and> totalPreorder codeUnitCompare
   \<and> map_of (calculatePlayerStats (rev tieGames) (rev stampedPreds))
       = map_of (calculatePlayerStats tieGames stampedPreds)
   \<and> calculatePlayerStats tieGames stampedPreds
       = [(''A'', \<lparr>totalPoints = 20, fechasWonCount = 2, perfectScoresCount = 2, gamesParticipated = 2\<rparr>),
          (''B'', \<lparr>totalPoints = 20, fechasWonCount = 2, perfectScoresCount = 2, gamesParticipated = 2\<rparr>)]
   \<and> getLatestPlayerName stampedPreds ''A'' = ''zoe''
   \<and> getLatestPlayerName stampedPreds ''B'' = ''bea''
   \<and> sortPlayersByStats codeUnitCompare (calculatePlayerStats (rev tieGames) (rev stampedPreds)) (rev stampedPreds)
       = [(''B'', \<lparr>totalPoints = 20, fechasWonCount = 2, perfectScoresCount = 2, gamesParticipated = 2\<rparr>),
          (''A'', \<lparr>totalPoints = 20, fechasWonCount = 2, perfectScoresCount = 2, gamesParticipated = 2\<rparr>)]"
proof -
  have d: "distinct (map game_id tieGames)"
    by code_simp
  have k: "plainWeeks tieGames"
    by code_simp
  have c: "calculatePlayerStats tieGames stampedPreds
       = [(''A'', \<lparr>totalPoints = 20, fechasWonCount = 2, perfectScoresCount = 2, gamesParticipated = 2\<rparr>),
          (''B'', \<lparr>totalPoints = 20, fechasWonCount = 2, perfectScoresCount = 2, gamesParticipated = 2\<rparr>)]"
    by code_simp
  have n: "getLatestPlayerName stampedPreds ''A'' = ''zoe''" "getLatestPlayerName stampedPreds ''B'' = ''bea''"
    by code_simp+
  have e: "sortPlayersByStats codeUnitCompare (calculatePlayerStats tieGames stampedPreds) stampedPreds
       = [(''B'', \<lparr>totalPoints = 20, fechasWonCount = 2, perfectScoresCount = 2, gamesParticipated = 2\<rparr>),
          (''A'', \<lparr>totalPoints = 20, fechasWonCount = 2, perfectScoresCount = 2, gamesParticipated = 2\<rparr>)]"
    by code_simp
  have names: "\<forall>p \<in> set stampedPreds.
      getLatestPlayerName (rev stampedPreds) (userIdOf p) = getLatestPlayerName stampedPreds (userIdOf p)"
    by code_simp
  have ties: "\<forall>a \<in> set (calculatePlayerStats tieGames stampedPreds).
      \<forall>b \<in> set (calculatePlayerStats tieGames stampedPreds).
        ranksBefore codeUnitCompare stampedPreds a b \<longrightarrow> ranksBefore codeUnitCompare stampedPreds b a \<longrightarrow> a = b"
    by code_simp
  have p: "mset (rev stampedPreds) = mset stampedPreds" "mset (rev tieGames) = mset tieGames"
    by simp_all
  from permutation_invariance [OF p d k codeUnitCompare_totalPreorder] names ties
  have "map_of (calculatePlayerStats (rev tieGames) (rev stampedPreds))
       = map_of (calculatePlayerStats tieGames stampedPreds)"
    and "sortPlayersByStats codeUnitCompare (calculatePlayerStats (rev tieGames) (rev stampedPreds)) (rev stampedPreds)
       = sortPlayersByStats codeUnitCompare (calculatePlayerStats tieGames stampedPreds) stampedPreds"
    by blast+
  with e c n d k p codeUnitCompare_totalPreorder show ?thesis
    by simp
qed

text \<open>
  C8 as stated fails. Swapping two predictions of one user that have no timestamp changes
  the user's display name and with it the ranking; and reversing two games that share an
  id changes which of them is scored.
\<close>

theorem permutation_changes_ranking:
  "mset namePredsSwapped = mset namePreds
   \<and> sortPlayersByStats codeUnitCompare (calculatePlayerStats [] namePreds) namePreds
        = [(''b'', zeroStats), (''a'', zeroStats)]
   \<and> sortPlayersByStats codeUnitCompare (calculatePlayerStats [] namePredsSwapped) namePredsSwapped
        = [(''a'', zeroStats), (''b'', zeroStats)]
   \<and> mset (rev duplicateGames) = mset duplicateGames
   \<and> map_of (calculatePlayerStats duplicateGames [mkPrediction ''A'' ''G1'' (Num 2) (Num 1)]) ''A''
        = Some zeroStats
   \<and> map_of (calculatePlayerStats (rev duplicateGames) [mkPrediction ''A'' ''G1'' (Num 2) (Num 1)]) ''A''
        = Some \<lparr>totalPoints = 10, fechasWonCount = 1, perfectScoresCount = 1, gamesParticipated = 1\<rparr>"
proof -
  have "mset namePredsSwapped = mset namePreds"
    by (simp add: namePredsSwapped_def namePreds_def)
  moreover have "sortPlayersByStats codeUnitCompare (calculatePlayerStats [] namePreds) namePreds
        = [(''b'', zeroStats), (''a'', zeroStats)]"
    by code_simp
  moreover have "sortPlayersByStats codeUnitCompare (calculatePlayerStats [] namePredsSwapped) namePredsSwapped
        = [(''a'', zeroStats), (''b'', zeroStats)]"
    by code_simp
  moreover have "map_of (calculatePlayerStats duplicateGames [mkPrediction ''A'' ''G1'' (Num 2) (Num 1)]) ''A''
        = Some zeroStats"
    by code_simp
  moreover have "map_of (calculatePlayerStats (rev duplicateGames) [mkPrediction ''A'' ''G1'' (Num 2) (Num 1)]) ''A''
        = Some \<lparr>totalPoints = 10, fechasWonCount = 1, perfectScoresCount = 1, gamesParticipated = 1\<rparr>"
    by code_simp
  ultimately show ?thesis
    by simp
qed

end
